theory Spec2Isabelle
  imports Main
begin

section \<open>Python strings\<close>

text \<open>
  A Python \<open>str\<close> is modelled as a \<open>string\<close>, one \<open>char\<close> per code point (code points
  below 256). Indices are Python \<open>int\<close>s: a negative slice bound counts from the end of
  the string and every bound is clamped into \<open>0..len\<close>, as \<open>text[i:j]\<close> and
  \<open>text.rfind(sub, i, j)\<close> do.
\<close>

definition py_clamp :: "int \<Rightarrow> nat \<Rightarrow> nat" where
  "py_clamp i n = (if i < 0 then nat (max 0 (i + int n)) else min (nat i) n)"

definition py_slice :: "'a list \<Rightarrow> int \<Rightarrow> int \<Rightarrow> 'a list" where
  "py_slice xs i j =
     (let a = py_clamp i (length xs); b = py_clamp j (length xs)
      in take (b - a) (drop a xs))"

text \<open>\<open>s.rfind(sub, i, j)\<close> for a non-empty \<open>sub\<close>: the highest index \<open>k\<close> with
  \<open>sub\<close> lying inside \<open>s[i:j]\<close> at \<open>k\<close>, or \<open>-1\<close>.\<close>

definition py_rfind :: "string \<Rightarrow> string \<Rightarrow> int \<Rightarrow> int \<Rightarrow> int" where
  "py_rfind s sub i j =
     (let a = py_clamp i (length s); b = py_clamp j (length s)
      in case filter (\<lambda>k. k + length sub \<le> b \<and> take (length sub) (drop k s) = sub)
                (rev [a..<b]) of
           [] \<Rightarrow> - 1
         | k # _ \<Rightarrow> int k)"

text \<open>\<open>s.find(c)\<close> for a single character: the lowest index, or \<open>-1\<close>.\<close>

fun py_find :: "string \<Rightarrow> char \<Rightarrow> int" where
  "py_find [] c = - 1"
| "py_find (x # xs) c =
     (if x = c then 0 else (let r = py_find xs c in if r < 0 then - 1 else r + 1))"

text \<open>The characters \<open>str.strip()\<close> removes, among the code points below 256.\<close>

definition is_space :: "char \<Rightarrow> bool" where
  "is_space c = ((of_char c :: nat) \<in> {9, 10, 11, 12, 13, 28, 29, 30, 31, 32, 133, 160})"

definition strip :: "string \<Rightarrow> string" where
  "strip s = rev (dropWhile is_space (rev (dropWhile is_space s)))"

definition startswith :: "string \<Rightarrow> string \<Rightarrow> bool" where
  "startswith s p = (take (length p) s = p)"

definition endswith :: "string \<Rightarrow> string \<Rightarrow> bool" where
  "endswith s p = (length p \<le> length s \<and> drop (length s - length p) s = p)"

text \<open>
  What \<open>open(path, 'r').read()\<close> returns for the characters stored in a file: text mode
  reads with universal newlines, so \<open>\r\n\<close> and a lone \<open>\r\<close> both arrive as \<open>\n\<close>.
  (Writing in text mode stores the characters as they are on a POSIX system.)
\<close>

fun universal_newlines :: "string \<Rightarrow> string" where
  "universal_newlines [] = []"
| "universal_newlines [c] = [if c = CHR 0x0D then CHR 0x0A else c]"
| "universal_newlines (c # d # cs) =
     (if c = CHR 0x0D then
        (if d = CHR 0x0A then CHR 0x0A # universal_newlines cs
         else CHR 0x0A # universal_newlines (d # cs))
      else c # universal_newlines (d # cs))"

section \<open>Chunker: \<open>ExtractionService.chunk_text\<close>\<close>

text \<open>
  The end of the window that starts at \<open>start\<close> (lines 112--125 of
  \<open>extraction_service.py\<close>): the last paragraph break in the window when it lies after
  \<open>start\<close>, else the position after the last full stop, else the raw window end.
\<close>

definition chunk_end :: "string \<Rightarrow> int \<Rightarrow> int \<Rightarrow> int" where
  "chunk_end text max_chunk_size start =
     (let end = start + max_chunk_size in
      if end < int (length text) then
        (let paragraph_break = py_rfind text ''\<newline>\<newline>'' start end in
         if paragraph_break > start then paragraph_break
         else if CHR ''.'' \<in> set (py_slice text start end) then
           (let sentence_break = py_rfind text ''.'' start end + 1 in
            if sentence_break > start then sentence_break else end)
         else end)
      else end)"

text \<open>The \<open>while start < len(text)\<close> loop. It need not terminate, so it is a partial
  function: \<open>None\<close> is the run that never returns.\<close>

partial_function (option) chunk_loop ::
  "string \<Rightarrow> int \<Rightarrow> int \<Rightarrow> int \<Rightarrow> string list \<Rightarrow> string list option" where
  "chunk_loop text max_chunk_size overlap start chunks =
     (if start < int (length text) then
        (let end = chunk_end text max_chunk_size start;
             chunk = strip (py_slice text start end)
         in chunk_loop text max_chunk_size overlap
              (if end < int (length text) then end - overlap else end)
              (if chunk \<noteq> [] then chunks @ [chunk] else chunks))
      else Some chunks)"

declare chunk_loop.simps [code]

definition chunk_text :: "string \<Rightarrow> int \<Rightarrow> int \<Rightarrow> string list option" where
  "chunk_text text max_chunk_size overlap =
     (if int (length text) \<le> max_chunk_size then Some [text]
      else chunk_loop text max_chunk_size overlap 0 [])"

text \<open>A window start from which the loop computes the same start again.\<close>

definition stuck :: "string \<Rightarrow> int \<Rightarrow> int \<Rightarrow> int \<Rightarrow> bool" where
  "stuck t m ov start =
     (start < int (length t) \<and> chunk_end t m start < int (length t) \<and>
      chunk_end t m start - ov = start)"

section \<open>JSON values and \<open>json.loads\<close>\<close>

text \<open>
  \<open>json.loads\<close> belongs to the Python standard library, not to the repository: the
  normalizer below takes the decoder as a parameter \<open>loads\<close> (\<open>None\<close> is
  \<open>json.JSONDecodeError\<close>). For concrete inputs \<open>json_loads\<close> decodes the JSON grammar
  the way the library does: whitespace, objects (a repeated key keeps its first position
  and its last value, as a \<open>dict\<close> does), arrays, strings with the single-character
  escapes, numbers (kept as their lexeme), \<open>true\<close>, \<open>false\<close>, \<open>null\<close>, \<open>NaN\<close> and
  \<open>Infinity\<close>. The escape \<open>\uXXXX\<close> may name a code point that is not a \<open>char\<close>; it is
  outside the fragment and \<open>json_loads\<close> rejects it, so \<open>json_loads\<close> is used on inputs
  without it only.
\<close>

datatype json =
    JNull
  | JBool bool
  | JNum string
  | JStr string
  | JArr "json list"
  | JObj "(string \<times> json) list"

datatype token =
  TLBrace | TRBrace | TLBrack | TRBrack | TColon | TComma | TStr string | TAtom json

fun dict_set :: "('k \<times> 'v) list \<Rightarrow> 'k \<Rightarrow> 'v \<Rightarrow> ('k \<times> 'v) list" where
  "dict_set [] k v = [(k, v)]"
| "dict_set ((k', v') # kvs) k v =
     (if k' = k then (k, v) # kvs else (k', v') # dict_set kvs k v)"

definition unescape :: "char \<Rightarrow> char option" where
  \<open>unescape e =
     (if e = CHR ''"'' then Some (CHR ''"'')
      else if e = CHR 0x5C then Some (CHR 0x5C)
      else if e = CHR ''/'' then Some (CHR ''/'')
      else if e = CHR ''b'' then Some (CHR 0x08)
      else if e = CHR ''f'' then Some (CHR 0x0C)
      else if e = CHR ''n'' then Some (CHR 0x0A)
      else if e = CHR ''r'' then Some (CHR 0x0D)
      else if e = CHR ''t'' then Some (CHR 0x09)
      else None)\<close>

fun lex_string :: "string \<Rightarrow> nat \<Rightarrow> string \<Rightarrow> (string \<times> nat) option" where
  "lex_string acc n [] = None"
| \<open>lex_string acc n [c] =
     (if c = CHR ''"'' then Some (rev acc, Suc n) else None)\<close>
| \<open>lex_string acc n (c # e # cs) =
     (if c = CHR ''"'' then Some (rev acc, Suc n)
      else if c = CHR 0x5C then
        (if e = CHR ''u'' then None
         else case unescape e of
                None \<Rightarrow> None
              | Some d \<Rightarrow> lex_string (d # acc) (n + 2) cs)
      else if (of_char c :: nat) < 32 then None
      else lex_string (c # acc) (Suc n) (e # cs))\<close>

definition is_digit :: "char \<Rightarrow> bool" where
  "is_digit c = (48 \<le> (of_char c :: nat) \<and> (of_char c :: nat) \<le> 57)"

definition lex_number :: "string \<Rightarrow> (string \<times> nat) option" where
  "lex_number s =
     (let sgn = (if take 1 s = ''-'' then ''-'' else []);
          r0 = drop (length sgn) s
      in case r0 of
           [] \<Rightarrow> None
         | d # r \<Rightarrow>
             if \<not> is_digit d then None
             else
               (let ip = (if d = CHR ''0'' then [d] else d # takeWhile is_digit r);
                    r1 = drop (length ip) r0;
                    fp = (case r1 of
                            p # d2 # r' \<Rightarrow>
                              if p = CHR ''.'' \<and> is_digit d2
                              then p # d2 # takeWhile is_digit r' else []
                          | _ \<Rightarrow> []);
                    r2 = drop (length fp) r1;
                    ep = (case r2 of
                            [] \<Rightarrow> []
                          | e # r' \<Rightarrow>
                              if e = CHR ''e'' \<or> e = CHR ''E'' then
                                (let sg = (if take 1 r' = ''+'' \<or> take 1 r' = ''-''
                                           then take 1 r' else []);
                                     ds = takeWhile is_digit (drop (length sg) r')
                                 in if ds = [] then [] else e # sg @ ds)
                              else []);
                    lexeme = sgn @ ip @ fp @ ep
                in Some (lexeme, length lexeme)))"

text \<open>\<open>lex k s\<close>: the tokens of \<open>s\<close> after its first \<open>k\<close> characters, which belong to the
  token before; \<open>None\<close> when some character starts no token. \<open>lex_string\<close> and
  \<open>lex_number\<close> return a token with the number of characters it takes.\<close>

definition emit :: "token \<Rightarrow> token list option \<Rightarrow> token list option" where
  "emit t r = (case r of None \<Rightarrow> None | Some ts \<Rightarrow> Some (t # ts))"

definition starts :: "string \<Rightarrow> string \<Rightarrow> bool" where
  "starts p s = (take (length p) s = p)"

fun lex :: "nat \<Rightarrow> string \<Rightarrow> token list option" where
  "lex k [] = (if k = 0 then Some [] else None)"
| "lex (Suc k) (c # cs) = lex k cs"
| \<open>lex 0 (c # cs) =
     (if c = CHR '' '' \<or> c = CHR 0x09 \<or> c = CHR 0x0A \<or> c = CHR 0x0D then lex 0 cs
      else if c = CHR ''{'' then emit TLBrace (lex 0 cs)
      else if c = CHR ''}'' then emit TRBrace (lex 0 cs)
      else if c = CHR ''['' then emit TLBrack (lex 0 cs)
      else if c = CHR '']'' then emit TRBrack (lex 0 cs)
      else if c = CHR '':'' then emit TColon (lex 0 cs)
      else if c = CHR '','' then emit TComma (lex 0 cs)
      else if c = CHR ''"'' then
        (case lex_string [] 0 cs of
           None \<Rightarrow> None
         | Some (s, n) \<Rightarrow> emit (TStr s) (lex n cs))
      else if starts ''null'' (c # cs) then emit (TAtom JNull) (lex 3 cs)
      else if starts ''true'' (c # cs) then emit (TAtom (JBool True)) (lex 3 cs)
      else if starts ''false'' (c # cs) then emit (TAtom (JBool False)) (lex 4 cs)
      else
        (case lex_number (c # cs) of
           Some (lx, n) \<Rightarrow> emit (TAtom (JNum lx)) (lex (n - 1) cs)
         | None \<Rightarrow>
             if starts ''NaN'' (c # cs) then emit (TAtom (JNum ''NaN'')) (lex 2 cs)
             else if starts ''Infinity'' (c # cs) then emit (TAtom (JNum ''Infinity'')) (lex 7 cs)
             else if starts ''-Infinity'' (c # cs) then emit (TAtom (JNum ''-Infinity'')) (lex 8 cs)
             else None))\<close>

datatype frame = FArr "json list" | FObj "(string \<times> json) list" "string option"

datatype pmode = MValue | MValueOrEnd | MKeyOrEnd | MKey | MColon | MAfter

text \<open>
  The decoder's state between two tokens: what it expects next, the containers that are
  still open (innermost first) and the finished top-level value, if any. A completed
  value goes into the innermost open container, or becomes the result when none is open.
\<close>

type_synonym pstate = "pmode \<times> frame list \<times> json option"

fun deliver :: "json \<Rightarrow> frame list \<Rightarrow> pstate option" where
  "deliver v [] = Some (MAfter, [], Some v)"
| "deliver v (FArr vs # st) = Some (MAfter, FArr (v # vs) # st, None)"
| "deliver v (FObj ms (Some k) # st) = Some (MAfter, FObj (dict_set ms k v) None # st, None)"
| "deliver v (FObj ms None # st) = None"

fun open_key :: "string \<Rightarrow> frame list \<Rightarrow> json option \<Rightarrow> pstate option" where
  "open_key k (FObj ms None # st) res = Some (MColon, FObj ms (Some k) # st, res)"
| "open_key k st res = None"

fun close_array :: "frame list \<Rightarrow> pstate option" where
  "close_array (FArr vs # st) = deliver (JArr (rev vs)) st"
| "close_array st = None"

fun close_object :: "frame list \<Rightarrow> pstate option" where
  "close_object (FObj ms None # st) = deliver (JObj ms) st"
| "close_object st = None"

fun start_value :: "token \<Rightarrow> frame list \<Rightarrow> json option \<Rightarrow> pstate option" where
  "start_value (TAtom v) st res = deliver v st"
| "start_value (TStr s) st res = deliver (JStr s) st"
| "start_value TLBrace st res = Some (MKeyOrEnd, FObj [] None # st, res)"
| "start_value TLBrack st res = Some (MValueOrEnd, FArr [] # st, res)"
| "start_value t st res = None"

fun step :: "pmode \<Rightarrow> frame list \<Rightarrow> json option \<Rightarrow> token \<Rightarrow> pstate option" where
  "step MValue st res t = start_value t st res"
| "step MValueOrEnd st res TRBrack = close_array st"
| "step MValueOrEnd st res t = start_value t st res"
| "step MKeyOrEnd st res (TStr k) = open_key k st res"
| "step MKeyOrEnd st res TRBrace = close_object st"
| "step MKeyOrEnd st res t = None"
| "step MKey st res (TStr k) = open_key k st res"
| "step MKey st res t = None"
| "step MColon st res TColon = Some (MValue, st, res)"
| "step MColon st res t = None"
| "step MAfter (FArr vs # st) res TComma = Some (MValue, FArr vs # st, res)"
| "step MAfter (FArr vs # st) res TRBrack = close_array (FArr vs # st)"
| "step MAfter (FObj ms None # st) res TComma = Some (MKey, FObj ms None # st, res)"
| "step MAfter (FObj ms None # st) res TRBrace = close_object (FObj ms None # st)"
| "step MAfter st res t = None"

fun parse_tokens :: "pstate option \<Rightarrow> token list \<Rightarrow> json option" where
  "parse_tokens None ts = None"
| "parse_tokens (Some (m, st, res)) [] =
     (if m = MAfter \<and> st = [] then res else None)"
| "parse_tokens (Some (m, st, res)) (t # ts) = parse_tokens (step m st res t) ts"

definition json_loads :: "string \<Rightarrow> json option" where
  "json_loads s =
     (case lex 0 s of
        None \<Rightarrow> None
      | Some ts \<Rightarrow> parse_tokens (Some (MValue, [], None)) ts)"

section \<open>Response normalizer: the parsing half of \<open>LLMService.generate_questions\<close>\<close>

datatype exn =
    HTTPException nat string
  | ValueError string
  | FileNotFoundError string
  | TypeError string
  | KeyError string
  | OSError string
  | ValidationError string
  | ProviderError string

text \<open>The brace-counting loop of lines 112--121: \<open>bc\<close> is \<open>brace_count\<close>, \<open>i\<close> the index
  of the next character; the result is \<open>json_end\<close>.\<close>

fun brace_scan :: "int \<Rightarrow> nat \<Rightarrow> string \<Rightarrow> int" where
  "brace_scan bc i [] = - 1"
| "brace_scan bc i (c # cs) =
     (if c = CHR ''{'' then brace_scan (bc + 1) (Suc i) cs
      else if c = CHR ''}'' then
        (if bc - 1 = 0 then int i else brace_scan (bc - 1) (Suc i) cs)
      else brace_scan bc (Suc i) cs)"

text \<open>Lines 95--124: the string that is handed to \<open>json.loads\<close>.\<close>

definition clean_response :: "string \<Rightarrow> string" where
  "clean_response response =
     (let r1 = strip response;
          r2 = (if startswith r1 ''```json'' then drop 7 r1 else r1);
          r3 = (if startswith r2 ''```'' then drop 3 r2 else r2);
          r4 = (if endswith r3 ''```'' then take (length r3 - 3) r3 else r3);
          r5 = strip r4;
          json_start = py_find r5 CHR ''{'';
          r6 = (if json_start > 0 then drop (nat json_start) r5 else r5);
          json_end = brace_scan 0 0 r6
      in if json_end \<noteq> - 1 then take (nat (json_end + 1)) r6 else r6)"

definition parse_response :: "(string \<Rightarrow> json option) \<Rightarrow> string \<Rightarrow> exn + json" where
  "parse_response loads response =
     (case loads (clean_response response) of
        None \<Rightarrow> Inl (ValueError ''Invalid JSON response from LLM'')
      | Some questions_data \<Rightarrow> Inr questions_data)"

text \<open>\<open>wraps obj r\<close>: the string \<open>r\<close> holds \<open>obj\<close> after a prefix without an opening
  brace.\<close>

definition wraps :: "string \<Rightarrow> string \<Rightarrow> bool" where
  "wraps obj r = (\<exists>p q. r = p @ obj @ q \<and> CHR ''{'' \<notin> set p)"

section \<open>Job records: \<open>UploadService\<close>\<close>

text \<open>
  \<open>ProcessingStatus\<close> and \<open>UploadMetadata\<close> are declared in \<open>backend.models\<close>; the fields
  are the ones the services read and write. The database collection \<open>uploads\<close> is a map
  from \<open>file_id\<close> to the record, the file system a map from paths to contents. The file
  of generated questions holds a JSON document (\<open>json.dump\<close> followed by \<open>json.load\<close> is
  taken to return the document). \<open>events\<close> is a log of the status writes, the progress
  writes and the gateway calls, in the order they happen; a gateway call is logged with
  the progress counters and message that the job record holds at that moment (\<open>None\<close>
  when there is no record). \<open>llm_calls\<close> counts the gateway calls.
\<close>

datatype processing_status = UPLOADED | EXTRACTING | EXTRACTED | GENERATING | READY | FAILED

record upload_metadata =
  filename :: string
  file_path :: string
  status :: processing_status
  error :: "string option"
  extracted_text_path :: "string option"
  generated_questions_path :: "string option"
  progress_current :: int
  progress_total :: int
  progress_message :: "string option"

datatype file_content = PdfFile | TextFile string | JsonFile json

datatype event =
    StatusSet string processing_status
  | ProgressSet string int int
  | GatewayCall string "(int \<times> int \<times> string option) option"

record world =
  uploads :: "string \<Rightarrow> upload_metadata option"
  files :: "string \<Rightarrow> file_content option"
  events :: "event list"
  llm_calls :: nat

text \<open>The progress counters and the progress message in the record of a job.\<close>

definition progress_of :: "world \<Rightarrow> string \<Rightarrow> (int \<times> int \<times> string option) option" where
  "progress_of w file_id =
     map_option (\<lambda>m. (progress_current m, progress_total m, progress_message m))
       (uploads w file_id)"

text \<open>
  What the pipeline takes from outside the repository: the settings, the PDF converter
  \<open>pymupdf4llm.to_markdown\<close>, the reply of the configured provider to the prompt built
  from a chunk (it may differ from call to call, so it takes the number of the call),
  \<open>json.loads\<close>, the constructor of the \<open>Question\<close> model of \<open>backend.models\<close> (\<open>None\<close>
  when it accepts the fields, else the message of its validation error) and the clock.
\<close>

record env =
  max_chunk_size :: int
  chunk_overlap :: int
  extracted_text_dir :: string
  generated_questions_dir :: string
  to_markdown :: "string \<Rightarrow> exn + string"
  provider_reply :: "nat \<Rightarrow> string \<Rightarrow> exn + string"
  json_decoder :: "string \<Rightarrow> json option"
  question_model :: "json \<Rightarrow> string option"
  utcnow :: string

fun str_nat :: "nat \<Rightarrow> string" where
  "str_nat n =
     (if n < 10 then [char_of (48 + n)]
      else str_nat (n div 10) @ [char_of (48 + n mod 10)])"

fun str_exn :: "exn \<Rightarrow> string" where
  "str_exn (HTTPException code detail) = str_nat code @ '': '' @ detail"
| "str_exn (ValueError m) = m"
| "str_exn (FileNotFoundError m) = m"
| "str_exn (TypeError m) = m"
| "str_exn (KeyError m) = m"
| "str_exn (OSError m) = m"
| "str_exn (ValidationError m) = m"
| "str_exn (ProviderError m) = m"

definition path_join :: "string \<Rightarrow> string \<Rightarrow> string" where
  "path_join d n =
     (if startswith n ''/'' \<or> d = [] then n
      else if endswith d ''/'' then d @ n
      else d @ ''/'' @ n)"

definition not_found :: "string \<Rightarrow> exn" where
  "not_found file_id = HTTPException 404 (''File with ID '' @ file_id @ '' not found'')"

definition get_upload_status :: "string \<Rightarrow> world \<Rightarrow> exn + upload_metadata" where
  "get_upload_status file_id w =
     (case uploads w file_id of
        None \<Rightarrow> Inl (not_found file_id)
      | Some upload \<Rightarrow> Inr upload)"

text \<open>\<open>if error:\<close> holds for a string that is neither \<open>None\<close> nor empty.\<close>

definition truthy :: "string option \<Rightarrow> bool" where
  "truthy s = (s \<noteq> None \<and> s \<noteq> Some [])"

definition update_status ::
  "string \<Rightarrow> processing_status \<Rightarrow> string option \<Rightarrow> world \<Rightarrow> exn + world" where
  "update_status file_id st err w =
     (case uploads w file_id of
        None \<Rightarrow> Inl (not_found file_id)
      | Some m \<Rightarrow>
          Inr (w\<lparr>uploads := (uploads w)(file_id \<mapsto>
                   (if truthy err then m\<lparr>status := st, error := err\<rparr> else m\<lparr>status := st\<rparr>)),
                 events := events w @ [StatusSet file_id st]\<rparr>))"

definition set_extracted_text_path :: "string \<Rightarrow> string \<Rightarrow> world \<Rightarrow> world" where
  "set_extracted_text_path file_id text_path w =
     (case uploads w file_id of
        None \<Rightarrow> w
      | Some m \<Rightarrow>
          w\<lparr>uploads := (uploads w)(file_id \<mapsto> m\<lparr>extracted_text_path := Some text_path\<rparr>)\<rparr>)"

definition set_generated_questions_path :: "string \<Rightarrow> string \<Rightarrow> world \<Rightarrow> world" where
  "set_generated_questions_path file_id questions_path w =
     (case uploads w file_id of
        None \<Rightarrow> w
      | Some m \<Rightarrow>
          w\<lparr>uploads := (uploads w)(file_id \<mapsto>
               m\<lparr>generated_questions_path := Some questions_path\<rparr>)\<rparr>)"

definition update_progress :: "string \<Rightarrow> int \<Rightarrow> int \<Rightarrow> string \<Rightarrow> world \<Rightarrow> world" where
  "update_progress file_id current tot message w =
     (case uploads w file_id of
        None \<Rightarrow> w
      | Some m \<Rightarrow>
          w\<lparr>uploads := (uploads w)(file_id \<mapsto>
                 (if message \<noteq> []
                  then m\<lparr>progress_current := current, progress_total := tot,
                         progress_message := Some message\<rparr>
                  else m\<lparr>progress_current := current, progress_total := tot\<rparr>)),
               events := events w @ [ProgressSet file_id current tot]\<rparr>)"

section \<open>Extraction service\<close>

text \<open>The body of the \<open>try\<close> of \<open>extract_text_from_pdf\<close> (lines 27--53), with the state it
  leaves behind when it raises.\<close>

definition extract_body :: "env \<Rightarrow> string \<Rightarrow> world \<Rightarrow> (exn + string) \<times> world" where
  "extract_body env file_id w =
     (case get_upload_status file_id w of
        Inl e \<Rightarrow> (Inl e, w)
      | Inr upload_metadata \<Rightarrow>
          (let pdf_path = file_path upload_metadata in
           if files w pdf_path = None
           then (Inl (FileNotFoundError (''PDF file not found: '' @ pdf_path)), w)
           else
             (case to_markdown env pdf_path of
                Inl e \<Rightarrow> (Inl e, w)
              | Inr md_text \<Rightarrow>
                  if md_text = [] \<or> strip md_text = []
                  then (Inl (ValueError ''No text could be extracted from PDF''), w)
                  else
                    (let text_path = path_join (extracted_text_dir env) (file_id @ ''.txt'');
                         w1 = w\<lparr>files := (files w)(text_path \<mapsto> TextFile md_text)\<rparr>;
                         w2 = set_extracted_text_path file_id text_path w1
                     in case update_status file_id EXTRACTED None w2 of
                          Inl e \<Rightarrow> (Inl e, w2)
                        | Inr w3 \<Rightarrow> (Inr md_text, w3)))))"

definition extract_text_from_pdf :: "env \<Rightarrow> string \<Rightarrow> world \<Rightarrow> (exn + string) \<times> world" where
  "extract_text_from_pdf env file_id w =
     (case update_status file_id EXTRACTING None w of
        Inl e \<Rightarrow> (Inl e, w)
      | Inr w1 \<Rightarrow>
          (case extract_body env file_id w1 of
             (Inr md_text, w2) \<Rightarrow> (Inr md_text, w2)
           | (Inl e, w2) \<Rightarrow>
               (case update_status file_id FAILED
                       (Some (''Extraction failed: '' @ str_exn e)) w2 of
                  Inl e' \<Rightarrow> (Inl e', w2)
                | Inr w3 \<Rightarrow> (Inl e, w3))))"

text \<open>\<open>get_extracted_text\<close>: \<open>Inr None\<close> is the return value \<open>None\<close>. The file is read in
  text mode. Reading as text a path that holds no text file raises.\<close>

definition get_extracted_text :: "string \<Rightarrow> world \<Rightarrow> exn + string option" where
  "get_extracted_text file_id w =
     (case get_upload_status file_id w of
        Inl e \<Rightarrow> Inl e
      | Inr upload_metadata \<Rightarrow>
          if \<not> truthy (extracted_text_path upload_metadata) then Inr None
          else
            (case files w (the (extracted_text_path upload_metadata)) of
               None \<Rightarrow> Inr None
             | Some (TextFile t) \<Rightarrow> Inr (Some (universal_newlines t))
             | Some _ \<Rightarrow> Inl (OSError ''not a text file'')))"

section \<open>Question generation: \<open>LLMService\<close> and \<open>QuestionService\<close>\<close>

text \<open>\<open>LLMService.generate_questions\<close> for the gateway call number \<open>n\<close>: the provider's
  reply, or its exception, then the parsing of lines 93--133.\<close>

definition generate_questions :: "env \<Rightarrow> nat \<Rightarrow> string \<Rightarrow> exn + json" where
  "generate_questions env n chunk =
     (case provider_reply env n chunk of
        Inl e \<Rightarrow> Inl e
      | Inr response \<Rightarrow> parse_response (json_decoder env) response)"

text \<open>What \<open>for q_data in v\<close> iterates over: the elements of a list, the keys of a
  dict, the characters of a string; \<open>None\<close> when \<open>v\<close> is not iterable.\<close>

definition iter_items :: "json \<Rightarrow> json list option" where
  "iter_items v =
     (case v of
        JArr qs \<Rightarrow> Some qs
      | JObj ms \<Rightarrow> Some (map (\<lambda>(k, _). JStr k) ms)
      | JStr s \<Rightarrow> Some (map (\<lambda>c. JStr [c]) s)
      | _ \<Rightarrow> None)"

fun is_dict :: "json \<Rightarrow> bool" where
  "is_dict (JObj kvs) = True"
| "is_dict v = False"

text \<open>Lines 78--79: \<open>q_data["file_id"] = file_id\<close> and \<open>q_data["created_at"] = \<dots>\<close>.\<close>

fun stamp :: "string \<Rightarrow> string \<Rightarrow> json \<Rightarrow> json" where
  "stamp file_id now (JObj kvs) =
     JObj (dict_set (dict_set kvs ''file_id'' (JStr file_id)) ''created_at'' (JStr now))"
| "stamp file_id now v = v"

text \<open>Lines 76--80: each element gets \<open>file_id\<close> and \<open>created_at\<close> and is appended. An
  element that is not a dict raises at the item assignment; what was appended before
  stays in \<open>all_questions\<close>.\<close>

fun add_questions :: "string \<Rightarrow> string \<Rightarrow> json list \<Rightarrow> json list \<Rightarrow> json list \<times> exn option" where
  "add_questions file_id now all_questions [] = (all_questions, None)"
| "add_questions file_id now all_questions (q_data # rest) =
     (if is_dict q_data
      then add_questions file_id now (all_questions @ [stamp file_id now q_data]) rest
      else (all_questions, Some (TypeError ''item assignment'')))"

definition contains :: "string \<Rightarrow> string \<Rightarrow> bool" where
  "contains s sub = list_ex (\<lambda>k. take (length sub) (drop k s) = sub) [0..<Suc (length s)]"

text \<open>Lines 75--82 for one result: \<open>"questions" in result\<close>, then the loop over
  \<open>result["questions"]\<close>. The second component is the exception raised, if any.\<close>

definition chunk_questions :: "string \<Rightarrow> string \<Rightarrow> json list \<Rightarrow> json \<Rightarrow> json list \<times> exn option" where
  "chunk_questions file_id now all_questions result =
     (case result of
        JObj ms \<Rightarrow>
          (case map_of ms ''questions'' of
             None \<Rightarrow> (all_questions, None)
           | Some qs \<Rightarrow>
               (case iter_items qs of
                  None \<Rightarrow> (all_questions, Some (TypeError ''not iterable''))
                | Some items \<Rightarrow> add_questions file_id now all_questions items))
      | JArr vs \<Rightarrow>
          (if JStr ''questions'' \<in> set vs
           then (all_questions, Some (TypeError ''list indices'')) else (all_questions, None))
      | JStr s \<Rightarrow>
          (if contains s ''questions''
           then (all_questions, Some (TypeError ''string indices'')) else (all_questions, None))
      | _ \<Rightarrow> (all_questions, Some (TypeError ''not iterable'')))"

text \<open>The drafts one chunk adds (lines 60--86): progress is written, then the gateway is
  called; whatever is raised inside the chunk is caught and the chunk adds what it had
  appended before.\<close>

definition chunk_message :: "nat \<Rightarrow> nat \<Rightarrow> string" where
  "chunk_message current_chunk total_chunks =
     ''Processing chunk '' @ str_nat current_chunk @ ''/'' @ str_nat total_chunks"

definition chunk_step ::
  "env \<Rightarrow> string \<Rightarrow> nat \<Rightarrow> nat \<Rightarrow> string \<Rightarrow> json list \<Rightarrow> world \<Rightarrow> json list \<times> world" where
  "chunk_step env file_id total_chunks idx chunk all_questions w =
     (let current_chunk = idx + 1;
          w1 = update_progress file_id (int current_chunk) (int total_chunks)
                 (chunk_message current_chunk total_chunks) w;
          w2 = w1\<lparr>events := events w1 @ [GatewayCall chunk (progress_of w1 file_id)],
                 llm_calls := Suc (llm_calls w1)\<rparr>
      in case generate_questions env (llm_calls w1) chunk of
           Inl e \<Rightarrow> (all_questions, w2)
         | Inr result \<Rightarrow> (fst (chunk_questions file_id (utcnow env) all_questions result), w2))"

fun process_chunks ::
  "env \<Rightarrow> string \<Rightarrow> nat \<Rightarrow> nat \<Rightarrow> string list \<Rightarrow> json list \<Rightarrow> world \<Rightarrow> json list \<times> world" where
  "process_chunks env file_id total_chunks idx [] all_questions w = (all_questions, w)"
| "process_chunks env file_id total_chunks idx (chunk # rest) all_questions w =
     (case chunk_step env file_id total_chunks idx chunk all_questions w of
        (all_questions', w') \<Rightarrow>
          process_chunks env file_id total_chunks (Suc idx) rest all_questions' w')"

text \<open>\<open>[Question(**q) for q in qs]\<close>: a \<open>Question\<close> is kept as the fields it was built
  from.\<close>

fun make_questions :: "env \<Rightarrow> json list \<Rightarrow> exn + json list" where
  "make_questions env [] = Inr []"
| "make_questions env (q # qs) =
     (case q of
        JObj kvs \<Rightarrow>
          (case question_model env q of
             Some msg \<Rightarrow> Inl (ValidationError msg)
           | None \<Rightarrow>
               (case make_questions env qs of Inl e \<Rightarrow> Inl e | Inr rest \<Rightarrow> Inr (q # rest)))
      | _ \<Rightarrow> Inl (TypeError ''argument after ** must be a mapping''))"

record generated_questions_response =
  resp_file_id :: string
  questions :: "json list"
  total_count :: nat
  resp_status :: processing_status

text \<open>Lines 38--41: the stored text, or a fresh extraction when there is none.\<close>

definition obtain_text :: "env \<Rightarrow> string \<Rightarrow> world \<Rightarrow> (exn + string) \<times> world" where
  "obtain_text env file_id w =
     (case get_extracted_text file_id w of
        Inl e \<Rightarrow> (Inl e, w)
      | Inr None \<Rightarrow> extract_text_from_pdf env file_id w
      | Inr (Some t) \<Rightarrow> if t = [] then extract_text_from_pdf env file_id w else (Inr t, w))"

text \<open>Lines 88--113: the check for an empty aggregate, the output file, the metadata and
  the response.\<close>

definition finish ::
  "env \<Rightarrow> string \<Rightarrow> json list \<Rightarrow> world \<Rightarrow> (exn + generated_questions_response) \<times> world" where
  "finish env file_id all_questions w =
     (if all_questions = []
      then (Inl (ValueError ''No questions were generated from the text''), w)
      else
        (let questions_path = path_join (generated_questions_dir env) (file_id @ ''.json'');
             w1 = w\<lparr>files := (files w)(questions_path \<mapsto>
                        JsonFile (JObj [(''questions'', JArr all_questions)]))\<rparr>;
             w2 = set_generated_questions_path file_id questions_path w1
         in case update_status file_id READY None w2 of
              Inl e \<Rightarrow> (Inl e, w2)
            | Inr w3 \<Rightarrow>
                (case make_questions env all_questions of
                   Inl e \<Rightarrow> (Inl e, w3)
                 | Inr qs \<Rightarrow>
                     (Inr \<lparr>resp_file_id = file_id, questions = qs, total_count = length qs,
                           resp_status = READY\<rparr>, w3))))"

text \<open>Lines 34--41: the status write and the text of the job, with the state they leave
  behind.\<close>

definition text_phase :: "env \<Rightarrow> string \<Rightarrow> world \<Rightarrow> (exn + string) \<times> world" where
  "text_phase env file_id w =
     (case update_status file_id GENERATING None w of
        Inl e \<Rightarrow> (Inl e, w)
      | Inr w1 \<Rightarrow> obtain_text env file_id w1)"

text \<open>The body of the \<open>try\<close> of \<open>generate_questions_from_file\<close> (lines 34--113). \<open>None\<close>
  is the run in which \<open>chunk_text\<close> does not return.\<close>

definition generate_body ::
  "env \<Rightarrow> string \<Rightarrow> world \<Rightarrow> ((exn + generated_questions_response) \<times> world) option" where
  "generate_body env file_id w =
     (case text_phase env file_id w of
        (Inl e, w2) \<Rightarrow> Some (Inl e, w2)
      | (Inr t, w2) \<Rightarrow>
          (case chunk_text t (max_chunk_size env) (chunk_overlap env) of
             None \<Rightarrow> None
           | Some chunks \<Rightarrow>
               (let total_chunks = length chunks;
                    w3 = update_progress file_id 0 (int total_chunks)
                           ''Starting question generation...'' w2
                in case process_chunks env file_id total_chunks 0 chunks [] w3 of
                     (all_questions, w4) \<Rightarrow> Some (finish env file_id all_questions w4))))"

text \<open>The \<open>except Exception\<close> of lines 115--121: the status becomes \<open>FAILED\<close> with the
  message, and the exception is raised again.\<close>

definition generate_questions_from_file ::
  "env \<Rightarrow> string \<Rightarrow> world \<Rightarrow> ((exn + generated_questions_response) \<times> world) option" where
  "generate_questions_from_file env file_id w =
     (case generate_body env file_id w of
        None \<Rightarrow> None
      | Some (Inr r, w') \<Rightarrow> Some (Inr r, w')
      | Some (Inl e, w') \<Rightarrow>
          (case update_status file_id FAILED
                  (Some (''Question generation failed: '' @ str_exn e)) w' of
             Inl e' \<Rightarrow> Some (Inl e', w')
           | Inr w'' \<Rightarrow> Some (Inl e, w'')))"

text \<open>\<open>json.load\<close> of the file at a path.\<close>

definition load_json :: "env \<Rightarrow> file_content \<Rightarrow> exn + json" where
  "load_json env c =
     (case c of
        JsonFile data \<Rightarrow> Inr data
      | TextFile t \<Rightarrow>
          (case json_decoder env (universal_newlines t) of
             None \<Rightarrow> Inl (ValueError ''JSONDecodeError'')
           | Some data \<Rightarrow> Inr data)
      | PdfFile \<Rightarrow> Inl (ValueError ''UnicodeDecodeError''))"

text \<open>\<open>data["questions"]\<close>.\<close>

definition questions_field :: "json \<Rightarrow> exn + json" where
  "questions_field data =
     (case data of
        JObj ms \<Rightarrow>
          (case map_of ms ''questions'' of
             None \<Rightarrow> Inl (KeyError ''questions'')
           | Some qs \<Rightarrow> Inr qs)
      | _ \<Rightarrow> Inl (TypeError ''not subscriptable''))"

definition get_generated_questions ::
  "env \<Rightarrow> string \<Rightarrow> world \<Rightarrow> exn + generated_questions_response option" where
  "get_generated_questions env file_id w =
     (case get_upload_status file_id w of
        Inl e \<Rightarrow> Inl e
      | Inr upload_metadata \<Rightarrow>
          if \<not> truthy (generated_questions_path upload_metadata) then Inr None
          else
            (case files w (the (generated_questions_path upload_metadata)) of
               None \<Rightarrow> Inr None
             | Some c \<Rightarrow>
                 (case load_json env c of
                    Inl e \<Rightarrow> Inl e
                  | Inr data \<Rightarrow>
                      (case questions_field data of
                         Inl e \<Rightarrow> Inl e
                       | Inr qs \<Rightarrow>
                           (case iter_items qs of
                              None \<Rightarrow> Inl (TypeError ''not iterable'')
                            | Some items \<Rightarrow>
                                (case make_questions env items of
                                   Inl e \<Rightarrow> Inl e
                                 | Inr qlist \<Rightarrow>
                                     Inr (Some \<lparr>resp_file_id = file_id, questions = qlist,
                                                 total_count = length qlist,
                                                 resp_status = status upload_metadata\<rparr>)))))))"

section \<open>The route \<open>POST /generate/{file_id}\<close>\<close>

text \<open>The route function \<open>generate_questions\<close> of \<open>process.py\<close> is
  \<open>generate_questions_route\<close> here; the name is taken by the function of \<open>LLMService\<close>.
  \<open>except HTTPException: raise\<close>, \<open>except Exception\<close>: status 500.\<close>

definition http_wrap :: "exn \<Rightarrow> exn" where
  "http_wrap e =
     (case e of
        HTTPException code detail \<Rightarrow> e
      | _ \<Rightarrow> HTTPException 500 (''Failed to generate questions: '' @ str_exn e))"

definition generate_questions_route ::
  "env \<Rightarrow> string \<Rightarrow> world \<Rightarrow> ((exn + generated_questions_response) \<times> world) option" where
  "generate_questions_route env file_id w =
     (case get_upload_status file_id w of
        Inl e \<Rightarrow> Some (Inl (http_wrap e), w)
      | Inr _ \<Rightarrow>
          (case get_generated_questions env file_id w of
             Inl e \<Rightarrow> Some (Inl (http_wrap e), w)
           | Inr (Some existing_questions) \<Rightarrow> Some (Inr existing_questions, w)
           | Inr None \<Rightarrow>
               (case generate_questions_from_file env file_id w of
                  None \<Rightarrow> None
                | Some (Inl e, w') \<Rightarrow> Some (Inl (http_wrap e), w')
                | Some (Inr result, w') \<Rightarrow> Some (Inr result, w'))))"

section \<open>Functions for stating the properties\<close>

text \<open>The error field and the path of the generated questions of every job.\<close>

definition errs :: "world \<Rightarrow> string \<Rightarrow> string option option" where
  "errs w f = map_option error (uploads w f)"

definition gpaths :: "world \<Rightarrow> string \<Rightarrow> string option option" where
  "gpaths w f = map_option generated_questions_path (uploads w f)"

text \<open>\<open>quiet w w'\<close>: from \<open>w\<close> to \<open>w'\<close> the same jobs exist, the log has grown, no error
  field and no path of generated questions has changed.\<close>

definition quiet :: "world \<Rightarrow> world \<Rightarrow> bool" where
  "quiet w w' =
     ((\<exists>es. events w' = events w @ es) \<and>
      (\<forall>f. errs w' f = errs w f) \<and> (\<forall>f. gpaths w' f = gpaths w f))"

text \<open>\<open>grows w w'\<close>: as \<open>quiet\<close>, but error fields may have changed.\<close>

definition grows :: "world \<Rightarrow> world \<Rightarrow> bool" where
  "grows w w' =
     ((\<exists>es. events w' = events w @ es) \<and> (\<forall>f. gpaths w' f = gpaths w f))"

text \<open>
  \<open>aside env f w w'\<close>: from \<open>w\<close> to \<open>w'\<close> no gateway call was made and no file but the
  extracted text of job \<open>f\<close> was written.
\<close>

definition text_path_of :: "env \<Rightarrow> string \<Rightarrow> string" where
  "text_path_of env file_id = path_join (extracted_text_dir env) (file_id @ ''.txt'')"

definition questions_path_of :: "env \<Rightarrow> string \<Rightarrow> string" where
  "questions_path_of env file_id = path_join (generated_questions_dir env) (file_id @ ''.json'')"

definition aside :: "env \<Rightarrow> string \<Rightarrow> world \<Rightarrow> world \<Rightarrow> bool" where
  "aside env f w w' =
     (llm_calls w' = llm_calls w \<and>
      (\<forall>p. p = text_path_of env f \<or> files w' p = files w p))"

text \<open>
  The drafts that the chunk processed as gateway call number \<open>n\<close> adds to the aggregate
  (lines 72--86): none when the gateway or the parsing of its reply raises; otherwise
  the elements that lines 76--80 appended, which are all elements of \<open>questions\<close> when
  they are all objects, and the objects before the first other element when there is
  one (the item assignment raises there, and what was appended stays).
\<close>

definition chunk_drafts :: "env \<Rightarrow> string \<Rightarrow> nat \<Rightarrow> string \<Rightarrow> json list" where
  "chunk_drafts env file_id n chunk =
     (case generate_questions env n chunk of
        Inl e \<Rightarrow> []
      | Inr result \<Rightarrow> fst (chunk_questions file_id (utcnow env) [] result))"

text \<open>
  A chunk fails when the gateway raises, when the parsing of its reply raises, or when
  its reply yields no draft.
\<close>

definition chunk_fails :: "env \<Rightarrow> string \<Rightarrow> nat \<Rightarrow> string \<Rightarrow> bool" where
  "chunk_fails env file_id n chunk =
     (case generate_questions env n chunk of
        Inl e \<Rightarrow> True
      | Inr result \<Rightarrow> fst (chunk_questions file_id (utcnow env) [] result) = [])"

text \<open>The aggregate after the chunks, the first of which is gateway call number \<open>n\<close>.\<close>

fun drafts_from :: "env \<Rightarrow> string \<Rightarrow> nat \<Rightarrow> string list \<Rightarrow> json list" where
  "drafts_from env file_id n [] = []"
| "drafts_from env file_id n (chunk # rest) =
     chunk_drafts env file_id n chunk @ drafts_from env file_id (Suc n) rest"

text \<open>The log entries of the chunk loop: for each chunk its progress write, then its
  gateway call, made while the job record shows the progress of this chunk.\<close>

fun chunk_events :: "string \<Rightarrow> nat \<Rightarrow> nat \<Rightarrow> string list \<Rightarrow> event list" where
  "chunk_events file_id total_chunks idx [] = []"
| "chunk_events file_id total_chunks idx (chunk # rest) =
     ProgressSet file_id (int (idx + 1)) (int total_chunks) #
     GatewayCall chunk
       (Some (int (idx + 1), int total_chunks, Some (chunk_message (idx + 1) total_chunks))) #
     chunk_events file_id total_chunks (Suc idx) rest"

text \<open>The statuses written, in order, in a log.\<close>

fun status_trace :: "event list \<Rightarrow> processing_status list" where
  "status_trace [] = []"
| "status_trace (StatusSet f st # es) = st # status_trace es"
| "status_trace (e # es) = status_trace es"

section \<open>Example inputs\<close>

text \<open>An environment with the library decoder \<open>json_loads\<close>, a \<open>Question\<close> model that
  accepts every draft, a converter that yields the text \<open>md\<close> and the provider \<open>pr\<close>.\<close>

definition test_env :: "int \<Rightarrow> int \<Rightarrow> string \<Rightarrow> (nat \<Rightarrow> string \<Rightarrow> exn + string) \<Rightarrow> env" where
  "test_env m ov md pr =
     \<lparr>max_chunk_size = m, chunk_overlap = ov,
      extracted_text_dir = ''./extracted_text'',
      generated_questions_dir = ''./generated_questions'',
      to_markdown = (\<lambda>p. Inr md),
      provider_reply = pr,
      json_decoder = json_loads,
      question_model = (\<lambda>q. None),
      utcnow = ''2024-01-01 00:00:00''\<rparr>"

definition mc_three_options :: string where
  \<open>mc_three_options =
     ''{"questions":[{"type":"mcq","question":"Q?","options":[{"label":"A","text":"x"},{"label":"B","text":"y"},{"label":"C","text":"z"}],"correct_answer":"D"}]}''\<close>

definition mc_draft :: "(string \<times> json) list" where
  "mc_draft =
     [(''type'', JStr ''mcq''), (''question'', JStr ''Q?''),
      (''options'',
       JArr [JObj [(''label'', JStr ''A''), (''text'', JStr ''x'')],
             JObj [(''label'', JStr ''B''), (''text'', JStr ''y'')],
             JObj [(''label'', JStr ''C''), (''text'', JStr ''z'')]]),
      (''correct_answer'', JStr ''D'')]"

text \<open>A provider that wraps the chunk into one draft, a job whose text is extracted, and
  the world that holds this job, its PDF and its text.\<close>

definition reply_for :: "string \<Rightarrow> string" where
  \<open>reply_for chunk = ''{"questions": [{"question": "'' @ chunk @ ''"}]}''\<close>

definition job_extracted :: upload_metadata where
  "job_extracted =
     \<lparr>filename = ''a.pdf'', file_path = ''./uploads/j1.pdf'', status = EXTRACTED,
      error = None, extracted_text_path = Some ''./extracted_text/j1.txt'',
      generated_questions_path = None,
      progress_current = 0, progress_total = 0, progress_message = None\<rparr>"

definition world_with :: "upload_metadata \<Rightarrow> string \<Rightarrow> world" where
  "world_with job t =
     \<lparr>uploads = [''j1'' \<mapsto> job],
      files = [''./uploads/j1.pdf'' \<mapsto> PdfFile, ''./extracted_text/j1.txt'' \<mapsto> TextFile t],
      events = [], llm_calls = 0\<rparr>"


text \<open>A provider that raises on every call.\<close>

definition env_all_fail :: env where
  "env_all_fail = test_env 7 2 [] (\<lambda>n c. Inl (ProviderError ''503''))"

text \<open>A document of two chunks with a provider that raises on the first call and
  replies \<open>{}\<close> to the second.\<close>

definition env_no_drafts :: env where
  \<open>env_no_drafts =
     test_env 7 2 ''abcdefghij''
       (\<lambda>n c. if n = 0 then Inl (ProviderError ''503'') else Inr ''{}'')\<close>

text \<open>A provider whose reply lists an object, a number and an object.\<close>

definition env_mixed_reply :: env where
  \<open>env_mixed_reply =
     test_env 7 2 ''abc''
       (\<lambda>n c. Inr ''{"questions": [{"question": "a"}, 5, {"question": "b"}]}'')\<close>

definition draft_of :: "string \<Rightarrow> json" where
  "draft_of c = JObj [(''question'', JStr c), (''file_id'', JStr ''j1''),
                      (''created_at'', JStr ''2024-01-01 00:00:00'')]"

text \<open>Jobs in other statuses, a freshly uploaded job without text, and a job that is
  \<open>READY\<close> with its stored set.\<close>

definition env_ok :: env where
  "env_ok = test_env 7 2 ''abc'' (\<lambda>n c. Inr (reply_for c))"

definition job_uploaded :: upload_metadata where
  "job_uploaded = job_extracted\<lparr>status := UPLOADED, extracted_text_path := None\<rparr>"

definition world_uploaded :: world where
  "world_uploaded =
     \<lparr>uploads = [''j1'' \<mapsto> job_uploaded], files = [''./uploads/j1.pdf'' \<mapsto> PdfFile],
      events = [], llm_calls = 0\<rparr>"

definition job_failed :: upload_metadata where
  "job_failed =
     job_extracted\<lparr>status := FAILED,
       error := Some ''Question generation failed: No questions were generated from the text''\<rparr>"

definition job_generating :: upload_metadata where
  "job_generating = job_extracted\<lparr>status := GENERATING\<rparr>"

definition job_ready :: upload_metadata where
  "job_ready =
     job_extracted\<lparr>status := READY,
       generated_questions_path := Some ''./generated_questions/j1.json''\<rparr>"

definition stored_set :: "(string \<times> json) list" where
  "stored_set = [(''questions'', JArr [draft_of ''abc''])]"

definition world_ready :: world where
  "world_ready =
     \<lparr>uploads = [''j1'' \<mapsto> job_ready],
      files = [''./uploads/j1.pdf'' \<mapsto> PdfFile,
               ''./extracted_text/j1.txt'' \<mapsto> TextFile ''abc'',
               ''./generated_questions/j1.json'' \<mapsto> JsonFile (JObj stored_set)],
      events = [], llm_calls = 0\<rparr>"

section \<open>Properties of the chunker\<close>

lemma chunk_loop_returns_not_stuck:
  assumes "chunk_loop t m ov start chunks = Some r"
  shows "\<not> stuck t m ov start"
proof (rule chunk_loop.raw_induct
    [where P = "\<lambda>t m ov start chunks r. \<not> stuck t m ov start", OF _ assms])
  fix f t m ov start chunks r
  assume IH: "\<And>t m ov start chunks r.
      f t m ov start chunks = Some r \<Longrightarrow> \<not> stuck t m ov start"
    and step: "(if start < int (length t) then
        (let end = chunk_end t m start;
             chunk = strip (py_slice t start end)
         in f t m ov
              (if end < int (length t) then end - ov else end)
              (if chunk \<noteq> [] then chunks @ [chunk] else chunks))
      else Some chunks) = Some r"
  show "\<not> stuck t m ov start"
  proof
    assume b: "stuck t m ov start"
    then have "\<exists>c. f t m ov start c = Some r"
      using step by (auto simp: stuck_def Let_def split: if_splits)
    then show False using IH b by blast
  qed
qed

lemma chunk_loop_stuck: "stuck t m ov start \<Longrightarrow> chunk_loop t m ov start chunks = None"
  using chunk_loop_returns_not_stuck by (cases "chunk_loop t m ov start chunks") auto

text \<open>
  C3 (the code does otherwise). The claim: for \<open>0 < overlap < maxSize\<close> the chunker makes
  strict forward progress at every iteration and terminates. On the ten-character text
  \<open>ab\n\ncdefgh\<close> with \<open>max_chunk_size = 5\<close> and \<open>overlap = 2\<close> the first window ends
  at the paragraph break at index 2, the next window starts at \<open>2 - 2 = 0\<close> again, and
  the loop never returns.
\<close>

theorem chunk_text_diverges:
  "(0::int) < 2 \<and> (2::int) < 5 \<and> chunk_end ''ab\<newline>\<newline>cdefgh'' 5 0 - 2 = 0 \<and>
   chunk_text ''ab\<newline>\<newline>cdefgh'' 5 2 = None"
proof -
  have e: "chunk_end ''ab\<newline>\<newline>cdefgh'' 5 0 = 2" by code_simp
  have "stuck ''ab\<newline>\<newline>cdefgh'' 5 2 0" by (simp add: stuck_def e)
  then show ?thesis by (simp add: chunk_text_def chunk_loop_stuck e)
qed

section \<open>Properties of the normalizer\<close>

lemma brace_scan_range:
  "brace_scan bc i xs \<noteq> - 1 \<Longrightarrow> int i \<le> brace_scan bc i xs \<and> brace_scan bc i xs < int (i + length xs)"
  by (induction bc i xs rule: brace_scan.induct) (auto split: if_splits)

lemma brace_scan_append:
  "brace_scan bc i xs \<noteq> - 1 \<Longrightarrow> brace_scan bc i (xs @ ys) = brace_scan bc i xs"
  by (induction bc i xs rule: brace_scan.induct) (auto split: if_splits)

lemma dropWhile_keep:
  "obj \<noteq> [] \<Longrightarrow> \<not> P (hd obj) \<Longrightarrow> dropWhile P (p @ obj @ q) = dropWhile P p @ obj @ q"
  by (induction p) (auto simp: neq_Nil_conv)

lemma strip_keep:
  assumes "obj \<noteq> []" "\<not> is_space (hd obj)" "\<not> is_space (last obj)"
  shows "strip (p @ obj @ q) = dropWhile is_space p @ obj @ rev (dropWhile is_space (rev q))"
proof -
  have "dropWhile is_space (rev q @ rev obj @ rev (dropWhile is_space p))
      = dropWhile is_space (rev q) @ rev obj @ rev (dropWhile is_space p)"
    using assms by (intro dropWhile_keep) (auto simp: hd_rev)
  then show ?thesis
    using assms by (simp add: strip_def dropWhile_keep)
qed

lemma startswith_keep:
  assumes "startswith (p @ obj @ q) pat" "obj \<noteq> []" "hd obj \<notin> set pat"
  shows "drop (length pat) (p @ obj @ q) = drop (length pat) p @ obj @ q"
proof -
  have "length pat \<le> length p"
  proof (rule ccontr)
    assume "\<not> length pat \<le> length p"
    then have lt: "length p < length pat" by simp
    have "pat ! length p = take (length pat) (p @ obj @ q) ! length p"
      using assms(1) by (simp add: startswith_def)
    also have "\<dots> = (p @ obj @ q) ! length p" by (rule nth_take[OF lt])
    also have "\<dots> = hd obj" using assms(2) by (simp add: nth_append hd_conv_nth)
    finally show False using assms(3) lt by (metis nth_mem)
  qed
  then show ?thesis by simp
qed

lemma endswith_keep:
  assumes "endswith (p @ obj @ q) pat" "obj \<noteq> []" "last obj \<notin> set pat"
  shows "take (length (p @ obj @ q) - length pat) (p @ obj @ q) = p @ obj @ take (length q - length pat) q"
proof -
  have "length pat \<le> length q"
  proof (rule ccontr)
    assume "\<not> length pat \<le> length q"
    then have lt: "length q < length pat" by simp
    have le: "length pat \<le> length (p @ obj @ q)" using assms(1) by (simp add: endswith_def)
    have eq: "drop (length (p @ obj @ q) - length pat) (p @ obj @ q) = pat"
      using assms(1) by (simp add: endswith_def)
    define r where "r = p @ obj"
    define k where "k = length (r @ q) - length pat"
    have rne: "r \<noteq> []" using assms(2) by (simp add: r_def)
    have k: "k < length r" using lt le rne by (cases r) (auto simp: k_def r_def)
    have "drop k (r @ q) = drop k r @ q" using k by simp
    moreover have "last r \<in> set (drop k r)"
      using k by (metis drop_eq_Nil2 last_drop last_in_set not_le)
    ultimately have "last r \<in> set (drop k (r @ q))" by simp
    moreover have "last r = last obj" using assms(2) by (simp add: r_def)
    ultimately have "last obj \<in> set (drop (length (p @ obj @ q) - length pat) (p @ obj @ q))"
      by (simp add: k_def r_def)
    then have "last obj \<in> set pat" unfolding eq .
    then show False using assms(3) by blast
  qed
  then show ?thesis by simp
qed

lemma py_find_append: "c \<notin> set p \<Longrightarrow> py_find (p @ c # r) c = int (length p)"
  by (induction p) (auto simp: Let_def)


lemma brace_scan_char:
  "brace_scan bc i xs \<noteq> - 1 \<Longrightarrow> xs ! (nat (brace_scan bc i xs) - i) = CHR ''}''"
proof (induction bc i xs rule: brace_scan.induct)
  case (1 bc i)
  then show ?case by simp
next
  case (2 bc i c cs)
  have r: "(c # cs) ! (nat (brace_scan b (Suc i) cs) - i) = cs ! (nat (brace_scan b (Suc i) cs) - Suc i)"
    if "brace_scan b (Suc i) cs \<noteq> - 1" for b
  proof -
    define k where "k = nat (brace_scan b (Suc i) cs)"
    have "Suc i \<le> k" using brace_scan_range[OF that] unfolding k_def by linarith
    then have "(c # cs) ! (k - i) = cs ! (k - Suc i)" by (simp add: nth_Cons' Suc_diff_le)
    then show ?thesis unfolding k_def .
  qed
  show ?case using 2 r by (auto split: if_splits)
qed

lemma wraps_strip:
  assumes "wraps obj r" "obj \<noteq> []" "\<not> is_space (hd obj)" "\<not> is_space (last obj)"
  shows "wraps obj (strip r)"
proof -
  from assms(1) obtain p q where r: "r = p @ obj @ q" and p: "CHR ''{'' \<notin> set p"
    by (auto simp: wraps_def)
  have "CHR ''{'' \<notin> set (dropWhile is_space p)" using p by (meson set_dropWhileD)
  then show ?thesis unfolding wraps_def r strip_keep[OF assms(2-4)] by blast
qed

lemma wraps_drop:
  assumes "wraps obj r" "startswith r pat" "obj \<noteq> []" "hd obj \<notin> set pat"
  shows "wraps obj (drop (length pat) r)"
proof -
  from assms(1) obtain p q where r: "r = p @ obj @ q" and p: "CHR ''{'' \<notin> set p"
    by (auto simp: wraps_def)
  have "CHR ''{'' \<notin> set (drop (length pat) p)" using p by (meson in_set_dropD)
  then show ?thesis
    using startswith_keep[OF assms(2)[unfolded r] assms(3,4)] unfolding wraps_def r by blast
qed

lemma wraps_take:
  assumes "wraps obj r" "endswith r pat" "obj \<noteq> []" "last obj \<notin> set pat"
  shows "wraps obj (take (length r - length pat) r)"
proof -
  from assms(1) obtain p q where r: "r = p @ obj @ q" and p: "CHR ''{'' \<notin> set p"
    by (auto simp: wraps_def)
  show ?thesis
    using endswith_keep[OF assms(2)[unfolded r] assms(3,4)] p unfolding wraps_def r by blast
qed

lemma clean_response_wrapped:
  assumes pre: "CHR ''{'' \<notin> set pre"
    and hd: "hd obj = CHR ''{''"
    and scan: "brace_scan 0 0 obj = int (length obj) - 1"
    and ne: "obj \<noteq> []"
  shows "clean_response (pre @ obj @ post) = obj"
proof -
  have sc: "brace_scan 0 0 obj \<noteq> - 1" using scan ne by (cases obj) auto
  have "obj ! (nat (brace_scan 0 0 obj) - 0) = CHR ''}''" by (rule brace_scan_char[OF sc])
  moreover have "nat (int (length obj) - 1) = length obj - 1" by linarith
  ultimately have lst: "last obj = CHR ''}''" using scan ne by (simp add: last_conv_nth)
  have nsh: "\<not> is_space (hd obj)" by (simp add: hd is_space_def)
  have nsl: "\<not> is_space (last obj)" by (simp add: lst is_space_def)
  define r1 where "r1 = strip (pre @ obj @ post)"
  define r2 where "r2 = (if startswith r1 ''```json'' then drop 7 r1 else r1)"
  define r3 where "r3 = (if startswith r2 ''```'' then drop 3 r2 else r2)"
  define r4 where "r4 = (if endswith r3 ''```'' then take (length r3 - 3) r3 else r3)"
  define r5 where "r5 = strip r4"
  have "wraps obj (pre @ obj @ post)" using pre unfolding wraps_def by blast
  then have w1: "wraps obj r1" unfolding r1_def by (rule wraps_strip[OF _ ne nsh nsl])
  have w2: "wraps obj r2"
  proof (cases "startswith r1 ''```json''")
    case True
    have "wraps obj (drop (length ''```json'') r1)"
      by (rule wraps_drop[OF w1 True ne]) (simp add: hd)
    moreover have "length ''```json'' = 7" by simp
    ultimately have "wraps obj (drop 7 r1)" by (simp only:)
    then show ?thesis by (simp only: r2_def True if_True)
  next
    case False
    then show ?thesis using w1 by (simp only: r2_def if_False)
  qed
  have w3: "wraps obj r3"
  proof (cases "startswith r2 ''```''")
    case True
    have "wraps obj (drop (length ''```'') r2)"
      by (rule wraps_drop[OF w2 True ne]) (simp add: hd)
    moreover have "length ''```'' = 3" by simp
    ultimately have "wraps obj (drop 3 r2)" by (simp only:)
    then show ?thesis by (simp only: r3_def True if_True)
  next
    case False
    then show ?thesis using w2 by (simp only: r3_def if_False)
  qed
  have w4: "wraps obj r4"
  proof (cases "endswith r3 ''```''")
    case True
    have "wraps obj (take (length r3 - length ''```'') r3)"
      by (rule wraps_take[OF w3 True ne]) (simp add: lst)
    moreover have "length ''```'' = 3" by simp
    ultimately have "wraps obj (take (length r3 - 3) r3)" by (simp only:)
    then show ?thesis by (simp only: r4_def True if_True)
  next
    case False
    then show ?thesis using w3 by (simp only: r4_def if_False)
  qed
  have "wraps obj r5" unfolding r5_def by (rule wraps_strip[OF w4 ne nsh nsl])
  then obtain p q where r5: "r5 = p @ obj @ q" and p: "CHR ''{'' \<notin> set p"
    by (auto simp: wraps_def)
  obtain rest where obj: "obj = CHR ''{'' # rest" using ne hd by (cases obj) auto
  have f: "py_find r5 CHR ''{'' = int (length p)"
    unfolding r5 obj using py_find_append[OF p] by simp
  have r6: "(if py_find r5 CHR ''{'' > 0 then drop (nat (py_find r5 CHR ''{'')) r5 else r5) = obj @ q"
    unfolding f by (simp add: r5)
  have e: "brace_scan 0 0 (obj @ q) = int (length obj) - 1"
    using brace_scan_append[OF sc] scan by simp
  have "clean_response (pre @ obj @ post) =
      (let r6 = (if py_find r5 CHR ''{'' > 0 then drop (nat (py_find r5 CHR ''{'')) r5 else r5);
           json_end = brace_scan 0 0 r6
       in if json_end \<noteq> - 1 then take (nat (json_end + 1)) r6 else r6)"
    by (simp only: clean_response_def Let_def r1_def r2_def r3_def r4_def r5_def)
  also have "\<dots> = obj" unfolding r6 using e ne by (simp add: Let_def)
  finally show ?thesis .
qed


text \<open>
  C8 (as the code has it). A raw response \<open>pre @ obj @ post\<close>, where the leading text \<open>pre\<close>
  holds no opening brace, \<open>obj\<close> starts with one and the brace count over \<open>obj\<close> first
  comes back to zero at its last character: whatever the fences and the commentary are,
  the string that reaches the decoder is \<open>obj\<close>, so normalization yields what decoding
  \<open>obj\<close> directly yields.
\<close>

theorem parse_response_wrapped:
  assumes "CHR ''{'' \<notin> set pre"
    and "obj \<noteq> []" and "hd obj = CHR ''{''"
    and "brace_scan 0 0 obj = int (length obj) - 1"
  shows "clean_response (pre @ obj @ post) = obj \<and>
         parse_response loads (pre @ obj @ post) =
           (case loads obj of
              None \<Rightarrow> Inl (ValueError ''Invalid JSON response from LLM'')
            | Some v \<Rightarrow> Inr v)"
  using clean_response_wrapped[OF assms(1,3,4,2)] by (simp add: parse_response_def)


text \<open>The example of the specification, with one draft in the array.\<close>

theorem parse_response_wrapped_witness:
  \<open>CHR ''{'' \<notin> set ''Here you go:\<newline>```json\<newline>'' \<and>
   ''{"questions":[{"question":"Q"}]}'' \<noteq> [] \<and>
   hd ''{"questions":[{"question":"Q"}]}'' = CHR ''{'' \<and>
   brace_scan 0 0 ''{"questions":[{"question":"Q"}]}'' = int (length ''{"questions":[{"question":"Q"}]}'') - 1 \<and>
   json_loads ''{"questions":[{"question":"Q"}]}'' = Some (JObj [(''questions'', JArr [JObj [(''question'', JStr ''Q'')]])]) \<and>
   parse_response json_loads
     ''Here you go:\<newline>```json\<newline>{"questions":[{"question":"Q"}]}\<newline>```\<newline>Hope this helps!'' =
     Inr (JObj [(''questions'', JArr [JObj [(''question'', JStr ''Q'')]])])\<close>
proof -
  have h1: "CHR ''{'' \<notin> set ''Here you go:\<newline>```json\<newline>''" by simp
  have h2: \<open>''{"questions":[{"question":"Q"}]}'' \<noteq> []\<close> by simp
  have h3: \<open>hd ''{"questions":[{"question":"Q"}]}'' = CHR ''{''\<close> by simp
  have h4: \<open>brace_scan 0 0 ''{"questions":[{"question":"Q"}]}'' = int (length ''{"questions":[{"question":"Q"}]}'') - 1\<close>
    by code_simp
  have j: \<open>json_loads ''{"questions":[{"question":"Q"}]}'' = Some (JObj [(''questions'', JArr [JObj [(''question'', JStr ''Q'')]])])\<close>
    by code_simp
  show ?thesis
    using parse_response_wrapped[where loads = json_loads and post = "''\<newline>```\<newline>Hope this helps!''", OF h1 h2 h3 h4] h4 j
    by simp
qed


text \<open>
  C8 as it is written fails when the leading commentary holds a brace: the normalizer
  cuts at the first opening brace, which is then not the one of the JSON object.
\<close>

theorem brace_in_prose_counterexample:
  \<open>json_loads ''{"questions":[{"question":"Q"}]}'' = Some (JObj [(''questions'', JArr [JObj [(''question'', JStr ''Q'')]])]) \<and>
   clean_response ''Here is the {JSON}:\<newline>```json\<newline>{"questions":[{"question":"Q"}]}\<newline>```\<newline>Hope this helps!'' = ''{JSON}'' \<and>
   parse_response json_loads
     ''Here is the {JSON}:\<newline>```json\<newline>{"questions":[{"question":"Q"}]}\<newline>```\<newline>Hope this helps!'' =
     Inl (ValueError ''Invalid JSON response from LLM'')\<close>
  by code_simp


text \<open>
  C10. There is a raw response that is one valid JSON object and on which normalization
  fails: the closing brace inside the string value of \<open>note\<close> brings the brace count to
  zero at index 10, the response is cut there, and decoding the cut prefix raises, while
  decoding the whole response yields the object with its draft.
\<close>

theorem brace_in_string_truncated:
  \<open>json_loads ''{"note": "}", "questions": [{"question": "Q"}]}'' =
     Some (JObj [(''note'', JStr ''}''), (''questions'', JArr [JObj [(''question'', JStr ''Q'')]])]) \<and>
   brace_scan 0 0 ''{"note": "}", "questions": [{"question": "Q"}]}'' = 10 \<and>
   clean_response ''{"note": "}", "questions": [{"question": "Q"}]}'' = ''{"note": "}'' \<and>
   json_loads ''{"note": "}'' = None \<and>
   parse_response json_loads ''{"note": "}", "questions": [{"question": "Q"}]}'' =
     Inl (ValueError ''Invalid JSON response from LLM'')\<close>
  by code_simp


section \<open>Properties of the aggregation\<close>

lemma add_questions_dicts:
  "list_all is_dict qs \<Longrightarrow>
   add_questions fid now acc qs = (acc @ map (stamp fid now) qs, None)"
  by (induction qs arbitrary: acc) auto


text \<open>
  C1 (as the code has it). The normalizer validates nothing: when the provider's reply is
  bounded to a text that decodes to an object whose \<open>questions\<close> value is an array of
  objects, \<open>generate_questions\<close> returns that object as it is and the orchestrator
  appends every element of the array, in order, each with \<open>file_id\<close> and \<open>created_at\<close>
  set. No element is dropped.
\<close>

theorem normalizer_keeps_every_draft:
  assumes "provider_reply env n chunk = Inr raw"
    and "json_decoder env (clean_response raw) = Some (JObj ms)"
    and "map_of ms ''questions'' = Some (JArr qs)"
    and "list_all is_dict qs"
  shows "generate_questions env n chunk = Inr (JObj ms) \<and>
         chunk_questions fid (utcnow env) acc (JObj ms) =
           (acc @ map (stamp fid (utcnow env)) qs, None)"
  using assms
  by (simp add: generate_questions_def parse_response_def chunk_questions_def iter_items_def
      add_questions_dicts)



theorem normalizer_keeps_every_draft_witness:
  "provider_reply (test_env 2000 200 [] (\<lambda>n c. Inr mc_three_options)) 0 ''text'' = Inr mc_three_options \<and>
   json_decoder (test_env 2000 200 [] (\<lambda>n c. Inr mc_three_options)) (clean_response mc_three_options)
     = Some (JObj [(''questions'', JArr [JObj mc_draft])]) \<and>
   map_of [(''questions'', JArr [JObj mc_draft])] ''questions'' = Some (JArr [JObj mc_draft]) \<and>
   list_all is_dict [JObj mc_draft] \<and>
   generate_questions (test_env 2000 200 [] (\<lambda>n c. Inr mc_three_options)) 0 ''text''
     = Inr (JObj [(''questions'', JArr [JObj mc_draft])]) \<and>
   chunk_questions ''j1'' (utcnow (test_env 2000 200 [] (\<lambda>n c. Inr mc_three_options))) []
       (JObj [(''questions'', JArr [JObj mc_draft])])
     = ([stamp ''j1'' ''2024-01-01 00:00:00'' (JObj mc_draft)], None)"
proof -
  let ?env = "test_env 2000 200 [] (\<lambda>n c. Inr mc_three_options)"
  have h1: "provider_reply ?env 0 ''text'' = Inr mc_three_options" by (simp add: test_env_def)
  have h2: "json_decoder ?env (clean_response mc_three_options)
     = Some (JObj [(''questions'', JArr [JObj mc_draft])])"
    by code_simp
  have h3: "map_of [(''questions'', JArr [JObj mc_draft])] ''questions'' = Some (JArr [JObj mc_draft])"
    by simp
  have h4: "list_all is_dict [JObj mc_draft]" by simp
  have u: "utcnow ?env = ''2024-01-01 00:00:00''" by (simp add: test_env_def)
  show ?thesis
    using normalizer_keeps_every_draft[OF h1 h2 h3 h4, of "''j1''" "[]"] h1 h2 h4 u
    by simp
qed


text \<open>
  C1 as it is written fails: a multiple-choice draft with three options and a
  \<open>correct_answer\<close> that names none of them is returned by the normalizer and appended
  to the aggregate.
\<close>

theorem three_option_draft_kept:
  "parse_response json_loads mc_three_options = Inr (JObj [(''questions'', JArr [JObj mc_draft])]) \<and>
   (case map_of mc_draft ''options'' of Some (JArr opts) \<Rightarrow> length opts | _ \<Rightarrow> 0) = 3 \<and>
   map_of mc_draft ''correct_answer'' = Some (JStr ''D'') \<and>
   fst (chunk_questions ''j1'' ''2024-01-01 00:00:00'' [] (JObj [(''questions'', JArr [JObj mc_draft])]))
     = [JObj (mc_draft @ [(''file_id'', JStr ''j1''), (''created_at'', JStr ''2024-01-01 00:00:00'')])]"
  by code_simp


section \<open>Properties of the pipeline\<close>

lemma quiet_refl: "quiet w w" by (simp add: quiet_def)

lemma grows_refl: "grows w w" by (simp add: grows_def)

lemma quiet_grows: "quiet w w' \<Longrightarrow> grows w w'" by (simp add: quiet_def grows_def)

lemma quiet_trans: "quiet a b \<Longrightarrow> quiet b c \<Longrightarrow> quiet a c" by (auto simp: quiet_def)

lemma grows_trans: "grows a b \<Longrightarrow> grows b c \<Longrightarrow> grows a c" by (auto simp: grows_def)

lemma quiet_events: "quiet w w' \<Longrightarrow> \<exists>es. events w' = events w @ es"
  by (simp add: quiet_def)

lemma grows_events: "grows w w' \<Longrightarrow> \<exists>es. events w' = events w @ es"
  by (simp add: grows_def)

lemma quiet_errs: "quiet w w' \<Longrightarrow> errs w' g = errs w g"
  by (simp add: quiet_def)

lemma update_status_exists: "update_status f st err w = Inr w' \<Longrightarrow> uploads w f \<noteq> None"
  by (auto simp: update_status_def split: option.splits)

lemma update_status_grows: "update_status f st err w = Inr w' \<Longrightarrow> grows w w'"
  by (auto simp: update_status_def grows_def gpaths_def split: option.splits)

lemma update_status_quiet: "update_status f st None w = Inr w' \<Longrightarrow> quiet w w'"
  by (auto simp: update_status_def quiet_def gpaths_def errs_def truthy_def split: option.splits)

lemma update_status_status:
  "update_status f st err w = Inr w' \<Longrightarrow> map_option status (uploads w' f) = Some st"
  by (auto simp: update_status_def split: option.splits)

lemma set_extracted_text_path_quiet: "quiet w (set_extracted_text_path f p w)"
  by (auto simp: set_extracted_text_path_def quiet_def gpaths_def errs_def split: option.splits)

lemma update_progress_quiet: "quiet w (update_progress f c t msg w)"
  by (auto simp: update_progress_def quiet_def gpaths_def errs_def split: option.splits)

lemma update_progress_files: "files (update_progress f c t msg w) = files w"
  by (auto simp: update_progress_def split: option.splits)

lemma update_progress_calls: "llm_calls (update_progress f c t msg w) = llm_calls w"
  by (auto simp: update_progress_def split: option.splits)

lemma update_progress_events:
  "uploads w f \<noteq> None \<Longrightarrow> events (update_progress f c t msg w) = events w @ [ProgressSet f c t]"
  by (auto simp: update_progress_def split: option.splits)

lemma files_upd_quiet: "quiet w (w\<lparr>files := fs\<rparr>)"
  by (simp add: quiet_def gpaths_def errs_def)

lemma extract_body_quiet:
  assumes "extract_body env f w = (r, w')"
  shows "quiet w w'"
proof (cases "get_upload_status f w")
  case (Inl e)
  then show ?thesis using assms by (simp add: extract_body_def quiet_refl)
next
  case (Inr m)
  show ?thesis
  proof (cases "files w (file_path m) = None")
    case True
    then show ?thesis using assms Inr by (simp add: extract_body_def quiet_refl)
  next
    case False
    note ex = this
    show ?thesis
    proof (cases "to_markdown env (file_path m)")
      case (Inl e)
      then show ?thesis using assms Inr ex by (auto simp: extract_body_def quiet_refl)
    next
      case md: (Inr md_text)
      show ?thesis
      proof (cases "md_text = [] \<or> strip md_text = []")
        case True
        then show ?thesis using assms Inr ex md by (auto simp: extract_body_def quiet_refl)
      next
        case False
        define p where "p = path_join (extracted_text_dir env) (f @ ''.txt'')"
        define w2 where "w2 = set_extracted_text_path f p (w\<lparr>files := (files w)(p \<mapsto> TextFile md_text)\<rparr>)"
        have q2: "quiet w w2" unfolding w2_def
          by (rule quiet_trans[OF files_upd_quiet set_extracted_text_path_quiet])
        have eq: "extract_body env f w =
            (case update_status f EXTRACTED None w2 of Inl e \<Rightarrow> (Inl e, w2) | Inr w3 \<Rightarrow> (Inr md_text, w3))"
          unfolding w2_def p_def using Inr ex md False by (auto simp: extract_body_def Let_def)
        show ?thesis
        proof (cases "update_status f EXTRACTED None w2")
          case (Inl e)
          then show ?thesis using assms eq q2 by simp
        next
          case (Inr w3)
          then have "w' = w3" using assms eq by simp
          then show ?thesis using quiet_trans[OF q2 update_status_quiet[OF Inr]] by simp
        qed
      qed
    qed
  qed
qed

lemma extract_text_from_pdf_grows:
  assumes "extract_text_from_pdf env f w = (r, w')"
  shows "grows w w'"
proof (cases "update_status f EXTRACTING None w")
  case (Inl e)
  then show ?thesis using assms by (simp add: extract_text_from_pdf_def grows_refl)
next
  case (Inr w1)
  obtain r2 w2 where b: "extract_body env f w1 = (r2, w2)" by (cases "extract_body env f w1")
  have g2: "grows w w2"
    using grows_trans[OF quiet_grows[OF update_status_quiet[OF Inr]] quiet_grows[OF extract_body_quiet[OF b]]] .
  show ?thesis
  proof (cases r2)
    case (Inr t)
    then show ?thesis using assms \<open>update_status f EXTRACTING None w = Inr w1\<close> b g2
      by (simp add: extract_text_from_pdf_def)
  next
    case (Inl e)
    show ?thesis
    proof (cases "update_status f FAILED (Some (''Extraction failed: '' @ str_exn e)) w2")
      case l: (Inl e')
      then show ?thesis using assms \<open>update_status f EXTRACTING None w = Inr w1\<close> b g2 Inl
        by (simp add: extract_text_from_pdf_def)
    next
      case r: (Inr w3)
      then have "w' = w3" using assms \<open>update_status f EXTRACTING None w = Inr w1\<close> b Inl
        by (simp add: extract_text_from_pdf_def)
      then show ?thesis using grows_trans[OF g2 update_status_grows[OF r]] by simp
    qed
  qed
qed

lemma extract_text_from_pdf_quiet:
  assumes "extract_text_from_pdf env f w = (Inr t, w')"
  shows "quiet w w'"
proof (cases "update_status f EXTRACTING None w")
  case (Inl e)
  then show ?thesis using assms by (simp add: extract_text_from_pdf_def)
next
  case (Inr w1)
  obtain r2 w2 where b: "extract_body env f w1 = (r2, w2)" by (cases "extract_body env f w1")
  have q2: "quiet w w2"
    using quiet_trans[OF update_status_quiet[OF Inr] extract_body_quiet[OF b]] .
  show ?thesis
  proof (cases r2)
    case (Inr t')
    then show ?thesis using assms \<open>update_status f EXTRACTING None w = Inr w1\<close> b q2
      by (simp add: extract_text_from_pdf_def)
  next
    case (Inl e)
    then show ?thesis using assms \<open>update_status f EXTRACTING None w = Inr w1\<close> b
      by (auto simp: extract_text_from_pdf_def split: sum.splits)
  qed
qed

lemma obtain_text_grows: "obtain_text env f w = (r, w') \<Longrightarrow> grows w w'"
  by (auto simp: obtain_text_def grows_refl split: sum.splits option.splits if_splits
      dest: extract_text_from_pdf_grows)

lemma obtain_text_quiet: "obtain_text env f w = (Inr t, w') \<Longrightarrow> quiet w w'"
  by (auto simp: obtain_text_def quiet_refl split: sum.splits option.splits if_splits
      dest: extract_text_from_pdf_quiet)

lemma quiet_exists: "quiet w w' \<Longrightarrow> uploads w f \<noteq> None \<Longrightarrow> uploads w' f \<noteq> None"
  by (auto simp: quiet_def errs_def dest!: spec[of _ f])

lemma grows_exists: "grows w w' \<Longrightarrow> uploads w f \<noteq> None \<Longrightarrow> uploads w' f \<noteq> None"
  by (auto simp: grows_def gpaths_def dest!: spec[of _ f])

lemma add_questions_append:
  "add_questions f now acc items =
     (acc @ fst (add_questions f now [] items), snd (add_questions f now [] items))"
proof (induction items arbitrary: acc)
  case Nil
  then show ?case by simp
next
  case (Cons q items)
  show ?case
  proof (cases "is_dict q")
    case True
    show ?thesis
      using Cons.IH[of "acc @ [stamp f now q]"] Cons.IH[of "[stamp f now q]"] True
      by simp
  next
    case False
    then show ?thesis by simp
  qed
qed

lemma chunk_questions_append:
  "fst (chunk_questions f now acc result) = acc @ fst (chunk_questions f now [] result)"
  using add_questions_append[of f now acc]
  by (auto simp: chunk_questions_def split: json.splits option.splits)




lemma update_progress_progress:
  "uploads w f \<noteq> None \<Longrightarrow> msg \<noteq> [] \<Longrightarrow>
   progress_of (update_progress f c t msg w) f = Some (c, t, Some msg)"
  by (auto simp: update_progress_def progress_of_def)

lemma chunk_message_nonempty: "chunk_message c t \<noteq> []"
  by (simp add: chunk_message_def)

lemma chunk_step_run:
  assumes "uploads w f \<noteq> None"
  shows "\<exists>w'. chunk_step env f tot idx c acc w = (acc @ drafts_from env f (llm_calls w) [c], w') \<and>
     quiet w w' \<and> files w' = files w \<and> llm_calls w' = Suc (llm_calls w) \<and>
     events w' = events w @ chunk_events f tot idx [c] \<and>
     progress_of w' f = Some (int (idx + 1), int tot, Some (chunk_message (idx + 1) tot))"
proof -
  define w1 where "w1 = update_progress f (int (idx + 1)) (int tot) (chunk_message (idx + 1) tot) w"
  define w2 where "w2 = w1\<lparr>events := events w1 @ [GatewayCall c (progress_of w1 f)],
                            llm_calls := Suc (llm_calls w1)\<rparr>"
  have q1: "quiet w w1" unfolding w1_def by (rule update_progress_quiet)
  have "quiet w1 w2" by (simp add: w2_def quiet_def errs_def gpaths_def)
  then have q: "quiet w w2" using q1 quiet_trans by blast
  have f: "files w2 = files w" by (simp add: w2_def w1_def update_progress_files)
  have l: "llm_calls w1 = llm_calls w" by (simp add: w1_def update_progress_calls)
  have p1: "progress_of w1 f = Some (int (idx + 1), int tot, Some (chunk_message (idx + 1) tot))"
    unfolding w1_def using assms chunk_message_nonempty by (rule update_progress_progress)
  have p2: "progress_of w2 f = progress_of w1 f" by (simp add: w2_def progress_of_def)
  have e1: "events w1 = events w @ [ProgressSet f (int (idx + 1)) (int tot)]"
    unfolding w1_def using assms by (rule update_progress_events)
  have e: "events w2 = events w @ chunk_events f tot idx [c]"
    using e1 p1 by (simp add: w2_def)
  have "chunk_step env f tot idx c acc w = (acc @ drafts_from env f (llm_calls w) [c], w2)"
  proof (cases "generate_questions env (llm_calls w) c")
    case (Inl e)
    then show ?thesis
      by (simp add: chunk_step_def Let_def w2_def w1_def update_progress_calls chunk_drafts_def)
  next
    case (Inr result)
    then show ?thesis
      by (simp add: chunk_step_def Let_def w2_def w1_def update_progress_calls chunk_drafts_def
          chunk_questions_append[of f "utcnow env" acc result])
  qed
  then show ?thesis using q f e l p1 p2 by (intro exI[of _ w2]) (simp add: w2_def)
qed

lemma process_chunks_run:
  assumes "uploads w f \<noteq> None"
  shows "\<exists>w'. process_chunks env f tot idx cs acc w = (acc @ drafts_from env f (llm_calls w) cs, w') \<and>
     quiet w w' \<and> files w' = files w \<and> llm_calls w' = llm_calls w + length cs \<and>
     events w' = events w @ chunk_events f tot idx cs \<and>
     progress_of w' f =
       (if cs = [] then progress_of w f
        else Some (int (idx + length cs), int tot, Some (chunk_message (idx + length cs) tot)))"
  using assms
proof (induction cs arbitrary: idx acc w)
  case Nil
  then show ?case by (simp add: quiet_refl)
next
  case (Cons c cs)
  obtain w1 where s: "chunk_step env f tot idx c acc w = (acc @ drafts_from env f (llm_calls w) [c], w1)"
    and q1: "quiet w w1" and f1: "files w1 = files w" and l1: "llm_calls w1 = Suc (llm_calls w)"
    and e1: "events w1 = events w @ chunk_events f tot idx [c]"
    and p1: "progress_of w1 f = Some (int (idx + 1), int tot, Some (chunk_message (idx + 1) tot))"
    using chunk_step_run[OF Cons.prems] by blast
  have ex1: "uploads w1 f \<noteq> None" using quiet_exists[OF q1 Cons.prems] .
  obtain w2 where p: "process_chunks env f tot (Suc idx) cs (acc @ drafts_from env f (llm_calls w) [c]) w1 =
        ((acc @ drafts_from env f (llm_calls w) [c]) @ drafts_from env f (llm_calls w1) cs, w2)"
    and q2: "quiet w1 w2" and f2: "files w2 = files w1" and l2: "llm_calls w2 = llm_calls w1 + length cs"
    and e2: "events w2 = events w1 @ chunk_events f tot (Suc idx) cs"
    and p2: "progress_of w2 f =
       (if cs = [] then progress_of w1 f
        else Some (int (Suc idx + length cs), int tot, Some (chunk_message (Suc idx + length cs) tot)))"
    using Cons.IH[OF ex1] by blast
  have "process_chunks env f tot idx (c # cs) acc w = (acc @ drafts_from env f (llm_calls w) (c # cs), w2)"
    using s p l1 by simp
  moreover have "quiet w w2" using quiet_trans[OF q1 q2] .
  moreover have "events w2 = events w @ chunk_events f tot idx (c # cs)"
    using e1 e2 by simp
  moreover have "progress_of w2 f =
      Some (int (idx + length (c # cs)), int tot, Some (chunk_message (idx + length (c # cs)) tot))"
    using p1 p2 by simp
  ultimately show ?case using f1 f2 l1 l2 by (intro exI[of _ w2]) simp
qed

lemma make_questions_dicts:
  "list_all is_dict qs \<Longrightarrow>
   make_questions env qs =
     (case List.find (\<lambda>q. question_model env q \<noteq> None) qs of
        None \<Rightarrow> Inr qs
      | Some q \<Rightarrow> Inl (ValidationError (the (question_model env q))))"
proof (induction qs)
  case Nil
  then show ?case by simp
next
  case (Cons q qs)
  then obtain kvs where "q = JObj kvs" by (cases q) auto
  then show ?case using Cons by (auto split: option.splits sum.splits)
qed

lemma finish_empty:
  "finish env f [] w = (Inl (ValueError ''No questions were generated from the text''), w)"
  by (simp add: finish_def)

lemma finish_run:
  assumes "uploads w f \<noteq> None" "qs \<noteq> []"
  shows "\<exists>w'. finish env f qs w =
       (case make_questions env qs of
          Inl e \<Rightarrow> Inl e
        | Inr ql \<Rightarrow> Inr \<lparr>resp_file_id = f, questions = ql, total_count = length ql,
                         resp_status = READY\<rparr>, w') \<and>
     events w' = events w @ [StatusSet f READY] \<and>
     files w' = (files w)(questions_path_of env f \<mapsto> JsonFile (JObj [(''questions'', JArr qs)])) \<and>
     map_option status (uploads w' f) = Some READY \<and>
     (\<forall>g. errs w' g = errs w g) \<and>
     gpaths w' f = Some (Some (questions_path_of env f)) \<and>
     llm_calls w' = llm_calls w \<and>
     progress_of w' f = progress_of w f"
proof -
  obtain m where m: "uploads w f = Some m" using assms(1) by auto
  show ?thesis
    using assms(2) m
    by (auto simp: finish_def Let_def questions_path_of_def set_generated_questions_path_def
        update_status_def truthy_def errs_def gpaths_def progress_of_def split: sum.splits)
qed

lemma generate_body_run:
  assumes u: "update_status f GENERATING None w = Inr w1"
    and ot: "obtain_text env f w1 = (Inr t, w2)"
    and ct: "chunk_text t (max_chunk_size env) (chunk_overlap env) = Some chunks"
  shows "\<exists>w4. generate_body env f w =
        Some (finish env f (drafts_from env f (llm_calls w2) chunks) w4) \<and>
      uploads w4 f \<noteq> None \<and> quiet w2 w4 \<and> files w4 = files w2 \<and>
      llm_calls w4 = llm_calls w2 + length chunks \<and>
      events w4 = events w2 @ ProgressSet f 0 (int (length chunks)) #
                    chunk_events f (length chunks) 0 chunks \<and>
      (if chunks = [] then True
       else progress_of w4 f =
              Some (int (length chunks), int (length chunks),
                    Some (chunk_message (length chunks) (length chunks))))"
proof -
  have ex1: "uploads w1 f \<noteq> None"
    using quiet_exists[OF update_status_quiet[OF u] update_status_exists[OF u]] .
  have ex2: "uploads w2 f \<noteq> None" using quiet_exists[OF obtain_text_quiet[OF ot] ex1] .
  define w3 where "w3 = update_progress f 0 (int (length chunks)) ''Starting question generation...'' w2"
  have q3: "quiet w2 w3" unfolding w3_def by (rule update_progress_quiet)
  have ex3: "uploads w3 f \<noteq> None" using quiet_exists[OF q3 ex2] .
  have e3: "events w3 = events w2 @ [ProgressSet f 0 (int (length chunks))]"
    unfolding w3_def using ex2 by (rule update_progress_events)
  have f3: "files w3 = files w2" unfolding w3_def by (rule update_progress_files)
  have l3: "llm_calls w3 = llm_calls w2" unfolding w3_def by (rule update_progress_calls)
  obtain w4 where p: "process_chunks env f (length chunks) 0 chunks [] w3 =
        ([] @ drafts_from env f (llm_calls w3) chunks, w4)"
    and q4: "quiet w3 w4" and f4: "files w4 = files w3"
    and l4: "llm_calls w4 = llm_calls w3 + length chunks"
    and e4: "events w4 = events w3 @ chunk_events f (length chunks) 0 chunks"
    and p4: "progress_of w4 f =
       (if chunks = [] then progress_of w3 f
        else Some (int (0 + length chunks), int (length chunks),
                   Some (chunk_message (0 + length chunks) (length chunks))))"
    using process_chunks_run[OF ex3, of env "length chunks" 0 chunks "[]"] by blast
  have "generate_body env f w = Some (finish env f (drafts_from env f (llm_calls w2) chunks) w4)"
    using u ot ct p l3 by (simp add: generate_body_def text_phase_def Let_def w3_def)
  moreover have "uploads w4 f \<noteq> None" using quiet_exists[OF q4 ex3] .
  moreover have "quiet w2 w4" using quiet_trans[OF q3 q4] .
  ultimately show ?thesis using f3 f4 l3 l4 e3 e4 p4 by (intro exI[of _ w4]) simp
qed

lemma update_status_after:
  assumes "uploads w f \<noteq> None"
  shows "\<exists>w'. update_status f st err w = Inr w' \<and> events w' = events w @ [StatusSet f st] \<and>
     files w' = files w \<and> llm_calls w' = llm_calls w \<and>
     map_option status (uploads w' f) = Some st \<and>
     map_option generated_questions_path (uploads w' f) = map_option generated_questions_path (uploads w f) \<and>
     map_option error (uploads w' f) =
       (if truthy err then Some err else map_option error (uploads w f)) \<and>
     progress_of w' f = progress_of w f"
  using assms by (auto simp: update_status_def progress_of_def)

lemma handler_run:
  assumes b: "generate_body env f w = Some (Inl e, w4)" and ex: "uploads w4 f \<noteq> None"
  shows "\<exists>w'. generate_questions_from_file env f w = Some (Inl e, w') \<and>
      events w' = events w4 @ [StatusSet f FAILED] \<and> files w' = files w4 \<and>
      llm_calls w' = llm_calls w4 \<and>
      map_option status (uploads w' f) = Some FAILED \<and>
      map_option generated_questions_path (uploads w' f) =
        map_option generated_questions_path (uploads w4 f) \<and>
      map_option error (uploads w' f) = Some (Some (''Question generation failed: '' @ str_exn e)) \<and>
      progress_of w' f = progress_of w4 f"
proof -
  obtain w5 where h: "update_status f FAILED
        (Some (''Question generation failed: '' @ str_exn e)) w4 = Inr w5"
    and r: "events w5 = events w4 @ [StatusSet f FAILED] \<and> files w5 = files w4 \<and>
     llm_calls w5 = llm_calls w4 \<and>
     map_option status (uploads w5 f) = Some FAILED \<and>
     map_option generated_questions_path (uploads w5 f) = map_option generated_questions_path (uploads w4 f) \<and>
     map_option error (uploads w5 f) =
       (if truthy (Some (''Question generation failed: '' @ str_exn e))
        then Some (Some (''Question generation failed: '' @ str_exn e))
        else map_option error (uploads w4 f)) \<and>
     progress_of w5 f = progress_of w4 f"
    using update_status_after[OF ex] by blast
  have "generate_questions_from_file env f w = Some (Inl e, w5)"
    using b h by (simp add: generate_questions_from_file_def)
  then show ?thesis using r by (intro exI[of _ w5]) (simp add: truthy_def)
qed

text \<open>A stored text with \<open>\r\n\<close> and a lone \<open>\r\<close> is read back with \<open>\n\<close> in their
  places.\<close>

lemma get_extracted_text_newlines:
  "get_extracted_text ''j1''
     (world_with job_extracted [CHR ''a'', CHR 0x0D, CHR 0x0A, CHR ''b'', CHR 0x0D, CHR ''c'']) =
   Inr (Some [CHR ''a'', CHR 0x0A, CHR ''b'', CHR 0x0A, CHR ''c''])"
  by code_simp

lemma text_phase_run:
  assumes "text_phase env f w = (Inr t, w2)"
  shows "\<exists>w1. update_status f GENERATING None w = Inr w1 \<and> obtain_text env f w1 = (Inr t, w2)"
  using assms by (auto simp: text_phase_def split: sum.splits)

lemma aside_refl: "aside env f w w"
  by (simp add: aside_def)

lemma aside_trans: "aside env f a b \<Longrightarrow> aside env f b c \<Longrightarrow> aside env f a c"
  unfolding aside_def by metis

lemma update_status_aside: "update_status g st err w = Inr w' \<Longrightarrow> aside env f w w'"
  by (auto simp: update_status_def aside_def split: option.splits)

lemma extract_body_aside:
  assumes "extract_body env f w = (r, w')"
  shows "aside env f w w'"
proof (cases "get_upload_status f w")
  case (Inl e)
  then show ?thesis using assms by (simp add: extract_body_def aside_refl)
next
  case (Inr m)
  show ?thesis
  proof (cases "files w (file_path m) = None")
    case True
    then show ?thesis using assms Inr by (simp add: extract_body_def aside_refl)
  next
    case False
    note ex = this
    show ?thesis
    proof (cases "to_markdown env (file_path m)")
      case (Inl e)
      then show ?thesis using assms Inr ex by (auto simp: extract_body_def aside_refl)
    next
      case md: (Inr md_text)
      show ?thesis
      proof (cases "md_text = [] \<or> strip md_text = []")
        case True
        then show ?thesis using assms Inr ex md by (auto simp: extract_body_def aside_refl)
      next
        case False
        define p where "p = path_join (extracted_text_dir env) (f @ ''.txt'')"
        define w2 where "w2 = set_extracted_text_path f p (w\<lparr>files := (files w)(p \<mapsto> TextFile md_text)\<rparr>)"
        have a2: "aside env f w w2" unfolding w2_def p_def
          by (auto simp: aside_def text_path_of_def set_extracted_text_path_def split: option.splits)
        have eq: "extract_body env f w =
            (case update_status f EXTRACTED None w2 of Inl e \<Rightarrow> (Inl e, w2) | Inr w3 \<Rightarrow> (Inr md_text, w3))"
          unfolding w2_def p_def using Inr ex md False by (auto simp: extract_body_def Let_def)
        show ?thesis
        proof (cases "update_status f EXTRACTED None w2")
          case (Inl e)
          then show ?thesis using assms eq a2 by simp
        next
          case (Inr w3)
          then have "w' = w3" using assms eq by simp
          then show ?thesis using aside_trans[OF a2 update_status_aside[OF Inr]] by simp
        qed
      qed
    qed
  qed
qed

lemma extract_text_from_pdf_aside:
  assumes "extract_text_from_pdf env f w = (r, w')"
  shows "aside env f w w'"
proof (cases "update_status f EXTRACTING None w")
  case (Inl e)
  then show ?thesis using assms by (simp add: extract_text_from_pdf_def aside_refl)
next
  case (Inr w1)
  obtain r2 w2 where b: "extract_body env f w1 = (r2, w2)" by (cases "extract_body env f w1")
  have a2: "aside env f w w2"
    using aside_trans[OF update_status_aside[OF Inr] extract_body_aside[OF b]] .
  show ?thesis
  proof (cases r2)
    case (Inr t)
    then show ?thesis using assms \<open>update_status f EXTRACTING None w = Inr w1\<close> b a2
      by (simp add: extract_text_from_pdf_def)
  next
    case (Inl e)
    show ?thesis
    proof (cases "update_status f FAILED (Some (''Extraction failed: '' @ str_exn e)) w2")
      case l: (Inl e')
      then show ?thesis using assms \<open>update_status f EXTRACTING None w = Inr w1\<close> b a2 Inl
        by (simp add: extract_text_from_pdf_def)
    next
      case r: (Inr w3)
      then have "w' = w3" using assms \<open>update_status f EXTRACTING None w = Inr w1\<close> b Inl
        by (simp add: extract_text_from_pdf_def)
      then show ?thesis using aside_trans[OF a2 update_status_aside[OF r]] by simp
    qed
  qed
qed

lemma obtain_text_aside: "obtain_text env f w = (r, w') \<Longrightarrow> aside env f w w'"
  by (auto simp: obtain_text_def aside_refl split: sum.splits option.splits if_splits
      dest: extract_text_from_pdf_aside)

lemma text_phase_aside: "text_phase env f w = (r, w') \<Longrightarrow> aside env f w w'"
  by (auto simp: text_phase_def aside_refl split: sum.splits
      dest: obtain_text_aside update_status_aside aside_trans)

lemma path_join_last: "n \<noteq> [] \<Longrightarrow> last (path_join d n) = last n"
  by (simp add: path_join_def)

lemma paths_differ: "text_path_of env f \<noteq> questions_path_of env f"
proof
  assume "text_path_of env f = questions_path_of env f"
  then have "last (path_join (extracted_text_dir env) (f @ ''.txt'')) =
      last (path_join (generated_questions_dir env) (f @ ''.json''))"
    by (simp add: text_path_of_def questions_path_of_def)
  then show False by (simp add: path_join_last)
qed

lemma chunk_fails_drafts: "chunk_fails env f n c \<longleftrightarrow> chunk_drafts env f n c = []"
  by (simp add: chunk_fails_def chunk_drafts_def split: sum.splits)


lemma drafts_from_empty:
  "drafts_from env f n cs = [] \<longleftrightarrow>
     list_all (\<lambda>(n, c). chunk_fails env f n c) (enumerate n cs)"
  by (induction cs arbitrary: n) (auto simp: chunk_fails_drafts)

text \<open>
  A reply whose \<open>questions\<close> list holds an object, then a number, then an object: the
  item assignment to the number raises after the first object was appended (lines
  76--80). The exception is caught where those of the gateway are caught (line 84), the
  first object stays in the aggregate and the second is never reached. Such a chunk
  yields a draft: it is not a failed chunk in the sense of \<open>chunk_fails\<close>, although
  an exception was caught for it.
\<close>

lemma chunk_raising_after_append:
  \<open>generate_questions env_mixed_reply 0 ''abc'' =
     Inr (JObj [(''questions'',
            JArr [JObj [(''question'', JStr ''a'')], JNum ''5'', JObj [(''question'', JStr ''b'')]])]) \<and>
   chunk_questions ''j1'' (utcnow env_mixed_reply) []
     (JObj [(''questions'',
        JArr [JObj [(''question'', JStr ''a'')], JNum ''5'', JObj [(''question'', JStr ''b'')]])]) =
     ([draft_of ''a''], Some (TypeError ''item assignment'')) \<and>
   chunk_drafts env_mixed_reply ''j1'' 0 ''abc'' = [draft_of ''a''] \<and>
   \<not> chunk_fails env_mixed_reply ''j1'' 0 ''abc'' \<and>
   map_option (\<lambda>(r, w'). (r, map_option status (uploads w' ''j1'')))
     (generate_questions_from_file env_mixed_reply ''j1'' world_uploaded) =
   Some (Inr \<lparr>resp_file_id = ''j1'', questions = [draft_of ''a''], total_count = 1,
               resp_status = READY\<rparr>, Some READY)\<close>
  by code_simp



text \<open>
  C6. A job whose text is obtained, stored or extracted on the way, and whose chunks all
  fail, so that the aggregate is empty after the loop: the run raises \<open>ValueError\<close>
  with the message \<open>No questions were generated from the text\<close>, the status becomes
  \<open>FAILED\<close> with this message stored, and the path of generated questions in the record
  is left as it was. After the text was obtained no file is written; over the whole
  run no file but the extracted text of the job has changed, and the file of generated
  questions is as it was before the run.
\<close>

theorem all_chunks_fail:
  assumes tp: "text_phase env f w = (Inr t, w2)"
    and ct: "chunk_text t (max_chunk_size env) (chunk_overlap env) = Some chunks"
    and em: "list_all (\<lambda>(n, c). chunk_fails env f n c) (enumerate (llm_calls w) chunks)"
  shows "\<exists>w'. generate_questions_from_file env f w =
        Some (Inl (ValueError ''No questions were generated from the text''), w') \<and>
      map_option status (uploads w' f) = Some FAILED \<and>
      map_option error (uploads w' f) =
        Some (Some ''Question generation failed: No questions were generated from the text'') \<and>
      files w' = files w2 \<and>
      (\<forall>p. p = text_path_of env f \<or> files w' p = files w p) \<and>
      files w' (questions_path_of env f) = files w (questions_path_of env f) \<and>
      map_option generated_questions_path (uploads w' f) =
        map_option generated_questions_path (uploads w f) \<and>
      (\<exists>es. events w2 = events w @ StatusSet f GENERATING # es) \<and>
      events w' = events w2 @ ProgressSet f 0 (int (length chunks)) #
                    chunk_events f (length chunks) 0 chunks @ [StatusSet f FAILED]"
proof -
  obtain w1 where u: "update_status f GENERATING None w = Inr w1"
    and ot: "obtain_text env f w1 = (Inr t, w2)"
    using text_phase_run[OF tp] by blast
  have ex: "uploads w f \<noteq> None" using update_status_exists[OF u] .
  obtain w1' where u': "update_status f GENERATING None w = Inr w1'"
    and e1': "events w1' = events w @ [StatusSet f GENERATING]"
    using update_status_after[OF ex] by blast
  have e1: "events w1 = events w @ [StatusSet f GENERATING]" using u u' e1' by simp
  obtain es where e2: "events w2 = events w1 @ es"
    using quiet_events[OF obtain_text_quiet[OF ot]] by blast
  have ev: "\<exists>es. events w2 = events w @ StatusSet f GENERATING # es" using e1 e2 by simp
  have a2: "aside env f w w2" using text_phase_aside[OF tp] .
  have l2: "llm_calls w2 = llm_calls w" using a2 by (simp add: aside_def)
  have fa: "\<forall>p. p = text_path_of env f \<or> files w2 p = files w p" using a2 by (simp add: aside_def)
  have fq: "files w2 (questions_path_of env f) = files w (questions_path_of env f)"
    using fa paths_differ[of env f] by metis
  have dd: "drafts_from env f (llm_calls w2) chunks = []"
    unfolding l2 using em drafts_from_empty[of env f "llm_calls w" chunks] by simp
  obtain w4 where b: "generate_body env f w =
        Some (finish env f (drafts_from env f (llm_calls w2) chunks) w4)"
    and ex4: "uploads w4 f \<noteq> None" and q4: "quiet w2 w4" and f4: "files w4 = files w2"
    and e4: "events w4 = events w2 @ ProgressSet f 0 (int (length chunks)) #
                    chunk_events f (length chunks) 0 chunks"
    using generate_body_run[OF u ot ct] by blast
  have b': "generate_body env f w =
      Some (Inl (ValueError ''No questions were generated from the text''), w4)"
    using b dd by (simp add: finish_empty)
  have g: "gpaths w4 f = gpaths w f"
    using quiet_trans[OF quiet_trans[OF update_status_quiet[OF u] obtain_text_quiet[OF ot]] q4]
    by (simp add: quiet_def)
  obtain w' where r: "generate_questions_from_file env f w =
        Some (Inl (ValueError ''No questions were generated from the text''), w')"
      "events w' = events w4 @ [StatusSet f FAILED]" "files w' = files w4"
      "map_option status (uploads w' f) = Some FAILED"
      "map_option generated_questions_path (uploads w' f) =
        map_option generated_questions_path (uploads w4 f)"
      "map_option error (uploads w' f) =
        Some (Some (''Question generation failed: '' @
          str_exn (ValueError ''No questions were generated from the text'')))"
    using handler_run[OF b' ex4] by blast
  show ?thesis
    using r g ev e4 f4 fa fq by (intro exI[of _ w']) (simp add: gpaths_def)
qed

text \<open>Two chunks, the first with a gateway error and the second with a reply without
  drafts, for a job that was only uploaded.\<close>

theorem all_chunks_fail_witness:
  \<open>fst (text_phase env_no_drafts ''j1'' world_uploaded) = Inr ''abcdefghij'' \<and>
   chunk_text ''abcdefghij'' (max_chunk_size env_no_drafts) (chunk_overlap env_no_drafts) =
     Some [''abcdefg'', ''fghij''] \<and>
   list_all (\<lambda>(n, c). chunk_fails env_no_drafts ''j1'' n c)
     (enumerate (llm_calls world_uploaded) [''abcdefg'', ''fghij'']) \<and>
   generate_questions env_no_drafts 0 ''abcdefg'' = Inl (ProviderError ''503'') \<and>
   generate_questions env_no_drafts 1 ''fghij'' = Inr (JObj []) \<and>
   (\<exists>w'. generate_questions_from_file env_no_drafts ''j1'' world_uploaded =
          Some (Inl (ValueError ''No questions were generated from the text''), w') \<and>
        map_option status (uploads w' ''j1'') = Some FAILED \<and>
        map_option error (uploads w' ''j1'') =
          Some (Some ''Question generation failed: No questions were generated from the text'') \<and>
        files w' ''./generated_questions/j1.json'' = None \<and>
        files w' ''./extracted_text/j1.txt'' = Some (TextFile ''abcdefghij'') \<and>
        map_option generated_questions_path (uploads w' ''j1'') = Some None \<and>
        events w' =
          [StatusSet ''j1'' GENERATING, StatusSet ''j1'' EXTRACTING, StatusSet ''j1'' EXTRACTED,
           ProgressSet ''j1'' 0 2,
           ProgressSet ''j1'' 1 2,
           GatewayCall ''abcdefg'' (Some (1, 2, Some ''Processing chunk 1/2'')),
           ProgressSet ''j1'' 2 2,
           GatewayCall ''fghij'' (Some (2, 2, Some ''Processing chunk 2/2'')),
           StatusSet ''j1'' FAILED])\<close>
proof -
  let ?t = "''abcdefghij''"
  let ?w = "world_uploaded"
  let ?w2 = "snd (text_phase env_no_drafts ''j1'' world_uploaded)"
  let ?cs = "[''abcdefg'', ''fghij'']"
  have h1: "fst (text_phase env_no_drafts ''j1'' ?w) = Inr ?t" by code_simp
  have h1': "text_phase env_no_drafts ''j1'' ?w = (Inr ?t, ?w2)"
    using h1 by (simp add: prod_eq_iff)
  have h2: "chunk_text ?t (max_chunk_size env_no_drafts) (chunk_overlap env_no_drafts) = Some ?cs"
    by code_simp
  have h3: "list_all (\<lambda>(n, c). chunk_fails env_no_drafts ''j1'' n c) (enumerate (llm_calls ?w) ?cs)"
    by code_simp
  have i1: "generate_questions env_no_drafts 0 ''abcdefg'' = Inl (ProviderError ''503'')" by code_simp
  have i2: "generate_questions env_no_drafts 1 ''fghij'' = Inr (JObj [])" by code_simp
  have b: "chunk_events ''j1'' (length ?cs) 0 ?cs =
      [ProgressSet ''j1'' 1 2,
       GatewayCall ''abcdefg'' (Some (1, 2, Some ''Processing chunk 1/2'')),
       ProgressSet ''j1'' 2 2,
       GatewayCall ''fghij'' (Some (2, 2, Some ''Processing chunk 2/2''))]"
    by code_simp
  have d: "events ?w2 =
      [StatusSet ''j1'' GENERATING, StatusSet ''j1'' EXTRACTING, StatusSet ''j1'' EXTRACTED]"
    by code_simp
  have c: "questions_path_of env_no_drafts ''j1'' = ''./generated_questions/j1.json''" by code_simp
  have n: "files ?w ''./generated_questions/j1.json'' = None" by (simp add: world_uploaded_def)
  have tx: "files ?w2 ''./extracted_text/j1.txt'' = Some (TextFile ?t)" by code_simp
  have gp: "map_option generated_questions_path (uploads ?w ''j1'') = Some None"
    by (simp add: world_uploaded_def job_uploaded_def job_extracted_def)
  obtain w' where g: "generate_questions_from_file env_no_drafts ''j1'' ?w =
        Some (Inl (ValueError ''No questions were generated from the text''), w')"
    and s: "map_option status (uploads w' ''j1'') = Some FAILED"
    and er: "map_option error (uploads w' ''j1'') =
        Some (Some ''Question generation failed: No questions were generated from the text'')"
    and f: "files w' = files ?w2"
    and fq: "files w' (questions_path_of env_no_drafts ''j1'') = files ?w (questions_path_of env_no_drafts ''j1'')"
    and p: "map_option generated_questions_path (uploads w' ''j1'') =
        map_option generated_questions_path (uploads ?w ''j1'')"
    and e: "events w' = events ?w2 @ ProgressSet ''j1'' 0 (int (length ?cs)) #
                    chunk_events ''j1'' (length ?cs) 0 ?cs @ [StatusSet ''j1'' FAILED]"
    using all_chunks_fail[OF h1' h2 h3] by blast
  have e': "events w' =
          [StatusSet ''j1'' GENERATING, StatusSet ''j1'' EXTRACTING, StatusSet ''j1'' EXTRACTED,
           ProgressSet ''j1'' 0 2,
           ProgressSet ''j1'' 1 2,
           GatewayCall ''abcdefg'' (Some (1, 2, Some ''Processing chunk 1/2'')),
           ProgressSet ''j1'' 2 2,
           GatewayCall ''fghij'' (Some (2, 2, Some ''Processing chunk 2/2'')),
           StatusSet ''j1'' FAILED]"
    using e unfolding b d by simp
  have f1: "files w' ''./generated_questions/j1.json'' = None" using fq n unfolding c by simp
  have f2: "files w' ''./extracted_text/j1.txt'' = Some (TextFile ?t)" using f tx by simp
  have p': "map_option generated_questions_path (uploads w' ''j1'') = Some None" using p gp by simp
  have x: "\<exists>w'. generate_questions_from_file env_no_drafts ''j1'' ?w =
          Some (Inl (ValueError ''No questions were generated from the text''), w') \<and>
        map_option status (uploads w' ''j1'') = Some FAILED \<and>
        map_option error (uploads w' ''j1'') =
          Some (Some ''Question generation failed: No questions were generated from the text'') \<and>
        files w' ''./generated_questions/j1.json'' = None \<and>
        files w' ''./extracted_text/j1.txt'' = Some (TextFile ?t) \<and>
        map_option generated_questions_path (uploads w' ''j1'') = Some None \<and>
        events w' =
          [StatusSet ''j1'' GENERATING, StatusSet ''j1'' EXTRACTING, StatusSet ''j1'' EXTRACTED,
           ProgressSet ''j1'' 0 2,
           ProgressSet ''j1'' 1 2,
           GatewayCall ''abcdefg'' (Some (1, 2, Some ''Processing chunk 1/2'')),
           ProgressSet ''j1'' 2 2,
           GatewayCall ''fghij'' (Some (2, 2, Some ''Processing chunk 2/2'')),
           StatusSet ''j1'' FAILED]"
    by (intro exI[of _ w'] conjI) (rule g s er f1 f2 p' e')+
  show ?thesis by (intro conjI) (rule h1 h2 h3 i1 i2 x)+
qed

section \<open>Properties of the status machine\<close>

lemma generate_run_shape:
  assumes ex: "uploads w f \<noteq> None"
    and run: "generate_questions_from_file env f w = Some (r, w')"
  shows "(\<exists>es. events w' = events w @ StatusSet f GENERATING # es) \<and>
     map_option status (uploads w' f) = Some (case r of Inl e \<Rightarrow> FAILED | Inr x \<Rightarrow> READY) \<and>
     (case r of Inl e \<Rightarrow> True | Inr x \<Rightarrow> errs w' f = errs w f)"
proof -
  obtain w1 where u: "update_status f GENERATING None w = Inr w1"
    and e1: "events w1 = events w @ [StatusSet f GENERATING]"
    using update_status_after[OF ex] by blast
  have q1: "quiet w w1" using update_status_quiet[OF u] .
  have ex1: "uploads w1 f \<noteq> None" using quiet_exists[OF q1 ex] .
  obtain r2 w2 where ot: "obtain_text env f w1 = (r2, w2)" by (cases "obtain_text env f w1")
  have g2: "grows w1 w2" using obtain_text_grows[OF ot] .
  obtain es2 where e2: "events w2 = events w1 @ es2" using grows_events[OF g2] by blast
  have ex2: "uploads w2 f \<noteq> None" using grows_exists[OF g2 ex1] .
  have fail: "?thesis" if b: "generate_body env f w = Some (Inl e, w4)"
      and ex4: "uploads w4 f \<noteq> None" and e4: "events w4 = events w2 @ es4" for e w4 es4
  proof -
    obtain w5 where h: "generate_questions_from_file env f w = Some (Inl e, w5)"
      "events w5 = events w4 @ [StatusSet f FAILED]"
      "map_option status (uploads w5 f) = Some FAILED"
      using handler_run[OF b ex4] by blast
    then have "r = Inl e" "w' = w5" using run by simp_all
    then show ?thesis using h e4 e2 e1 by simp
  qed
  show ?thesis
  proof (cases r2)
    case (Inl e)
    then have "generate_body env f w = Some (Inl e, w2)"
      using u ot by (simp add: generate_body_def text_phase_def)
    then show ?thesis using fail[OF _ ex2, of e "[]"] by simp
  next
    case (Inr t)
    note ot' = ot[unfolded Inr]
    show ?thesis
    proof (cases "chunk_text t (max_chunk_size env) (chunk_overlap env)")
      case None
      then have "generate_body env f w = None"
        using u ot' by (simp add: generate_body_def text_phase_def)
      then show ?thesis using run by (simp add: generate_questions_from_file_def)
    next
      case (Some chunks)
      obtain w4 where b: "generate_body env f w =
            Some (finish env f (drafts_from env f (llm_calls w2) chunks) w4)"
        and ex4: "uploads w4 f \<noteq> None" and q4: "quiet w2 w4"
        using generate_body_run[OF u ot' Some] by blast
      obtain es4 where e4: "events w4 = events w2 @ es4" using quiet_events[OF q4] by blast
      define ds where "ds = drafts_from env f (llm_calls w2) chunks"
      show ?thesis
      proof (cases "ds = []")
        case True
        then have "generate_body env f w =
            Some (Inl (ValueError ''No questions were generated from the text''), w4)"
          using b by (simp add: ds_def finish_empty)
        then show ?thesis using fail[OF _ ex4 e4] by simp
      next
        case False
        obtain w5 where fin: "finish env f ds w4 =
             (case make_questions env ds of
                Inl e \<Rightarrow> Inl e
              | Inr ql \<Rightarrow> Inr \<lparr>resp_file_id = f, questions = ql, total_count = length ql,
                               resp_status = READY\<rparr>, w5)"
          and e5: "events w5 = events w4 @ [StatusSet f READY]"
          and s5: "map_option status (uploads w5 f) = Some READY"
          and r5: "\<forall>g. errs w5 g = errs w4 g"
          using finish_run[OF ex4 False, of env] by blast
        have ex5: "uploads w5 f \<noteq> None" using s5 by auto
        show ?thesis
        proof (cases "make_questions env ds")
          case (Inl e)
          then have "generate_body env f w = Some (Inl e, w5)"
            using b fin by (simp add: ds_def)
          then show ?thesis using fail[OF _ ex5, of e "es4 @ [StatusSet f READY]"] e5 e4 by simp
        next
          case (Inr ql)
          then have "generate_body env f w =
              Some (Inr \<lparr>resp_file_id = f, questions = ql, total_count = length ql,
                               resp_status = READY\<rparr>, w5)"
            using b fin by (simp add: ds_def)
          then have rw: "r = Inr \<lparr>resp_file_id = f, questions = ql, total_count = length ql,
                               resp_status = READY\<rparr>" "w' = w5"
            using run by (simp_all add: generate_questions_from_file_def)
          have "errs w5 f = errs w f"
            using r5 quiet_errs[OF q4] quiet_errs[OF obtain_text_quiet[OF ot']] quiet_errs[OF q1]
            by simp
          then show ?thesis using rw e5 e4 e2 e1 s5 by simp
        qed
      qed
    qed
  qed
qed

lemma extract_body_Inr_status:
  "extract_body env f w = (Inr t, w') \<Longrightarrow> map_option status (uploads w' f) = Some EXTRACTED"
  by (auto simp: extract_body_def Let_def split: sum.splits if_splits dest: update_status_status)

lemma extract_run_shape:
  assumes ex: "uploads w f \<noteq> None"
    and run: "extract_text_from_pdf env f w = (r, w')"
  shows "(\<exists>es. events w' = events w @ StatusSet f EXTRACTING # es) \<and>
     map_option status (uploads w' f) = Some (case r of Inl e \<Rightarrow> FAILED | Inr x \<Rightarrow> EXTRACTED)"
proof -
  obtain w1 where u: "update_status f EXTRACTING None w = Inr w1"
    and e1: "events w1 = events w @ [StatusSet f EXTRACTING]"
    using update_status_after[OF ex] by blast
  have ex1: "uploads w1 f \<noteq> None" using quiet_exists[OF update_status_quiet[OF u] ex] .
  obtain r2 w2 where b: "extract_body env f w1 = (r2, w2)" by (cases "extract_body env f w1")
  have q2: "quiet w1 w2" using extract_body_quiet[OF b] .
  obtain es2 where e2: "events w2 = events w1 @ es2" using quiet_events[OF q2] by blast
  have ex2: "uploads w2 f \<noteq> None" using quiet_exists[OF q2 ex1] .
  show ?thesis
  proof (cases r2)
    case (Inr t)
    then have "r = Inr t" "w' = w2" using run u b by (simp_all add: extract_text_from_pdf_def)
    then show ?thesis using extract_body_Inr_status[OF b[unfolded Inr]] e2 e1 by simp
  next
    case (Inl e)
    obtain w3 where h: "update_status f FAILED (Some (''Extraction failed: '' @ str_exn e)) w2 = Inr w3"
      and e3: "events w3 = events w2 @ [StatusSet f FAILED]"
      and s3: "map_option status (uploads w3 f) = Some FAILED"
      using update_status_after[OF ex2] by blast
    have "r = Inl e" "w' = w3" using run u b Inl h by (simp_all add: extract_text_from_pdf_def)
    then show ?thesis using e3 e2 e1 s3 by simp
  qed
qed

lemma get_generated_questions_stored:
  assumes "uploads w f = Some m"
    and "generated_questions_path m = Some p" and "p \<noteq> []"
    and "files w p = Some (JsonFile (JObj ms))"
    and "map_of ms ''questions'' = Some (JArr qs)"
    and "list_all is_dict qs"
    and "list_all (\<lambda>q. question_model env q = None) qs"
  shows "get_generated_questions env f w =
     Inr (Some \<lparr>resp_file_id = f, questions = qs, total_count = length qs,
                resp_status = status m\<rparr>)"
proof -
  have "List.find (\<lambda>q. question_model env q \<noteq> None) qs = None"
    using assms(7) by (induction qs) auto
  then have "make_questions env qs = Inr qs"
    using make_questions_dicts[OF assms(6), of env] by simp
  then show ?thesis
    using assms(1-5)
    by (simp add: get_generated_questions_def get_upload_status_def truthy_def load_json_def
        questions_field_def iter_items_def)
qed

lemma status_overwritten:
  assumes "uploads w f = Some m"
  shows "update_status f st None (w\<lparr>uploads := (uploads w)(f \<mapsto> m\<lparr>status := s\<rparr>)\<rparr>) =
         update_status f st None w"
  using assms by (simp add: update_status_def truthy_def)

text \<open>
  C2 (as the code has it). No status write is guarded by the current status: for a job
  in any status, \<open>update_status\<close> sets the status it is given; an extraction run first
  writes \<open>EXTRACTING\<close> and leaves the job \<open>EXTRACTED\<close> when it returns and \<open>FAILED\<close> when
  it raises; a generation run first writes \<open>GENERATING\<close> and leaves the job \<open>READY\<close> when
  it returns and \<open>FAILED\<close> when it raises.
\<close>

theorem status_writes_unguarded:
  assumes "uploads w f = Some m"
  shows "(\<exists>w'. update_status f st err w = Inr w' \<and>
            map_option status (uploads w' f) = Some st \<and>
            events w' = events w @ [StatusSet f st]) \<and>
         (case extract_text_from_pdf env f w of
            (r, w') \<Rightarrow>
              (\<exists>es. events w' = events w @ StatusSet f EXTRACTING # es) \<and>
              map_option status (uploads w' f) =
                Some (case r of Inl e \<Rightarrow> FAILED | Inr x \<Rightarrow> EXTRACTED)) \<and>
         (case generate_questions_from_file env f w of
            None \<Rightarrow> True
          | Some (r, w') \<Rightarrow>
              (\<exists>es. events w' = events w @ StatusSet f GENERATING # es) \<and>
              map_option status (uploads w' f) =
                Some (case r of Inl e \<Rightarrow> FAILED | Inr x \<Rightarrow> READY))"
proof -
  have ex: "uploads w f \<noteq> None" using assms by simp
  have a: "\<exists>w'. update_status f st err w = Inr w' \<and>
            map_option status (uploads w' f) = Some st \<and>
            events w' = events w @ [StatusSet f st]"
    using update_status_after[OF ex, of st err] by blast
  have b: "case extract_text_from_pdf env f w of
            (r, w') \<Rightarrow>
              (\<exists>es. events w' = events w @ StatusSet f EXTRACTING # es) \<and>
              map_option status (uploads w' f) =
                Some (case r of Inl e \<Rightarrow> FAILED | Inr x \<Rightarrow> EXTRACTED)"
    using extract_run_shape[OF ex] by (cases "extract_text_from_pdf env f w") simp
  have c: "case generate_questions_from_file env f w of
            None \<Rightarrow> True
          | Some (r, w') \<Rightarrow>
              (\<exists>es. events w' = events w @ StatusSet f GENERATING # es) \<and>
              map_option status (uploads w' f) =
                Some (case r of Inl e \<Rightarrow> FAILED | Inr x \<Rightarrow> READY)"
    using generate_run_shape[OF ex] by (cases "generate_questions_from_file env f w") auto
  show ?thesis using a b c by simp
qed

text \<open>A job that is \<open>FAILED\<close> is moved to \<open>GENERATING\<close> and on to \<open>READY\<close>.\<close>

theorem status_writes_unguarded_witness:
  "uploads (world_with job_failed ''abc'') ''j1'' = Some job_failed \<and>
   status job_failed = FAILED \<and>
   (\<exists>w'. update_status ''j1'' GENERATING None (world_with job_failed ''abc'') = Inr w' \<and>
         map_option status (uploads w' ''j1'') = Some GENERATING \<and>
         events w' = events (world_with job_failed ''abc'') @ [StatusSet ''j1'' GENERATING]) \<and>
   (case extract_text_from_pdf env_ok ''j1'' (world_with job_failed ''abc'') of
      (r, w') \<Rightarrow>
        (\<exists>es. events w' = events (world_with job_failed ''abc'') @
                 StatusSet ''j1'' EXTRACTING # es) \<and>
        map_option status (uploads w' ''j1'') =
          Some (case r of Inl e \<Rightarrow> FAILED | Inr x \<Rightarrow> EXTRACTED)) \<and>
   (case generate_questions_from_file env_ok ''j1'' (world_with job_failed ''abc'') of
      None \<Rightarrow> True
    | Some (r, w') \<Rightarrow>
        (\<exists>es. events w' = events (world_with job_failed ''abc'') @
                 StatusSet ''j1'' GENERATING # es) \<and>
        map_option status (uploads w' ''j1'') =
          Some (case r of Inl e \<Rightarrow> FAILED | Inr x \<Rightarrow> READY)) \<and>
   map_option (\<lambda>(r, w'). map_option status (uploads w' ''j1''))
     (generate_questions_from_file env_ok ''j1'' (world_with job_failed ''abc'')) =
     Some (Some READY)"
proof -
  have h: "uploads (world_with job_failed ''abc'') ''j1'' = Some job_failed"
    by (simp add: world_with_def)
  have s: "status job_failed = FAILED" by (simp add: job_failed_def)
  have e: "map_option (\<lambda>(r, w'). map_option status (uploads w' ''j1''))
     (generate_questions_from_file env_ok ''j1'' (world_with job_failed ''abc'')) =
     Some (Some READY)"
    by code_simp
  note T = status_writes_unguarded[OF h, of GENERATING None env_ok]
  show ?thesis
    by (intro conjI)
      (rule h s e conjunct1[OF T] conjunct1[OF conjunct2[OF T]] conjunct2[OF conjunct2[OF T]])+
qed

text \<open>
  C2 as it is written fails: generation on a freshly uploaded job enters \<open>GENERATING\<close>
  from \<open>UPLOADED\<close> and \<open>EXTRACTING\<close> from \<open>GENERATING\<close>; generation on a \<open>FAILED\<close> job
  and extraction on a \<open>READY\<close> job move the job out of its status.
\<close>

theorem generating_entered_from_uploaded:
  "status job_uploaded = UPLOADED \<and>
   map_option (\<lambda>(r, w'). status_trace (events w'))
     (generate_questions_from_file env_ok ''j1'' world_uploaded) =
     Some [GENERATING, EXTRACTING, EXTRACTED, READY] \<and>
   status job_failed = FAILED \<and>
   map_option (\<lambda>(r, w'). status_trace (events w'))
     (generate_questions_from_file env_ok ''j1'' (world_with job_failed ''abc'')) =
     Some [GENERATING, READY] \<and>
   status job_ready = READY \<and>
   status_trace (events (snd (extract_text_from_pdf env_ok ''j1'' world_ready))) =
     [EXTRACTING, EXTRACTED]"
  by code_simp

text \<open>
  C4 (as the code has it). A request to generate for a job that is \<open>GENERATING\<close> and has
  no path of generated questions is not a conflict: it does exactly what it does for the
  same job in status \<open>EXTRACTED\<close>, it writes \<open>GENERATING\<close> first, and when it returns
  the job is \<open>READY\<close> or \<open>FAILED\<close>.
\<close>

theorem generating_job_runs_again:
  assumes "uploads w f = Some m" and "status m = GENERATING"
    and "\<not> truthy (generated_questions_path m)"
  shows "generate_questions_route env f w =
           generate_questions_route env f (w\<lparr>uploads := (uploads w)(f \<mapsto> m\<lparr>status := EXTRACTED\<rparr>)\<rparr>) \<and>
         (case generate_questions_route env f w of
            None \<Rightarrow> True
          | Some (r, w') \<Rightarrow>
              (\<exists>es. events w' = events w @ StatusSet f GENERATING # es) \<and>
              map_option status (uploads w' f) =
                Some (case r of Inl e \<Rightarrow> FAILED | Inr x \<Rightarrow> READY))"
proof -
  let ?w = "w\<lparr>uploads := (uploads w)(f \<mapsto> m\<lparr>status := EXTRACTED\<rparr>)\<rparr>"
  have ex: "uploads w f \<noteq> None" using assms(1) by simp
  have g: "get_generated_questions env f w = Inr None" "get_generated_questions env f ?w = Inr None"
    using assms(1,3) by (simp_all add: get_generated_questions_def get_upload_status_def)
  obtain w1 where u: "update_status f GENERATING None w = Inr w1"
    using update_status_after[OF ex] by blast
  have "generate_body env f ?w = generate_body env f w"
    using status_overwritten[OF assms(1), of GENERATING EXTRACTED] u
    by (simp add: generate_body_def text_phase_def)
  then have b: "generate_questions_from_file env f ?w = generate_questions_from_file env f w"
    by (simp add: generate_questions_from_file_def)
  have r: "generate_questions_route env f w =
      (case generate_questions_from_file env f w of
                  None \<Rightarrow> None
                | Some (Inl e, w') \<Rightarrow> Some (Inl (http_wrap e), w')
                | Some (Inr result, w') \<Rightarrow> Some (Inr result, w'))"
    using g(1) assms(1) by (simp add: generate_questions_route_def get_upload_status_def)
  have r': "generate_questions_route env f ?w =
      (case generate_questions_from_file env f ?w of
                  None \<Rightarrow> None
                | Some (Inl e, w') \<Rightarrow> Some (Inl (http_wrap e), w')
                | Some (Inr result, w') \<Rightarrow> Some (Inr result, w'))"
    using g(2) by (simp add: generate_questions_route_def get_upload_status_def)
  have one: "generate_questions_route env f w = generate_questions_route env f ?w"
    unfolding r r' b ..
  have two: "case generate_questions_route env f w of
            None \<Rightarrow> True
          | Some (r, w') \<Rightarrow>
              (\<exists>es. events w' = events w @ StatusSet f GENERATING # es) \<and>
              map_option status (uploads w' f) =
                Some (case r of Inl e \<Rightarrow> FAILED | Inr x \<Rightarrow> READY)"
  proof (cases "generate_questions_from_file env f w")
    case None
    then show ?thesis unfolding r by simp
  next
    case (Some a)
    obtain r0 w0 where a: "a = (r0, w0)" by (cases a)
    show ?thesis
      using generate_run_shape[OF ex Some[unfolded a]] unfolding r Some a
      by (cases r0) auto
  qed
  show ?thesis using one two by simp
qed

theorem generating_job_runs_again_witness:
  "uploads (world_with job_generating ''abc'') ''j1'' = Some job_generating \<and>
   status job_generating = GENERATING \<and>
   \<not> truthy (generated_questions_path job_generating) \<and>
   generate_questions_route env_ok ''j1'' (world_with job_generating ''abc'') =
     generate_questions_route env_ok ''j1''
       ((world_with job_generating ''abc'')
          \<lparr>uploads := (uploads (world_with job_generating ''abc''))
             (''j1'' \<mapsto> job_generating\<lparr>status := EXTRACTED\<rparr>)\<rparr>) \<and>
   (case generate_questions_route env_ok ''j1'' (world_with job_generating ''abc'') of
      None \<Rightarrow> True
    | Some (r, w') \<Rightarrow>
        (\<exists>es. events w' = events (world_with job_generating ''abc'') @
                 StatusSet ''j1'' GENERATING # es) \<and>
        map_option status (uploads w' ''j1'') =
          Some (case r of Inl e \<Rightarrow> FAILED | Inr x \<Rightarrow> READY)) \<and>
   map_option (\<lambda>(r, w'). map_option status (uploads w' ''j1''))
     (generate_questions_route env_ok ''j1'' (world_with job_generating ''abc'')) =
     Some (Some READY)"
proof -
  have h1: "uploads (world_with job_generating ''abc'') ''j1'' = Some job_generating"
    by (simp add: world_with_def)
  have h2: "status job_generating = GENERATING" by (simp add: job_generating_def)
  have h3: "\<not> truthy (generated_questions_path job_generating)"
    by (simp add: job_generating_def job_extracted_def truthy_def)
  have e: "map_option (\<lambda>(r, w'). map_option status (uploads w' ''j1''))
     (generate_questions_route env_ok ''j1'' (world_with job_generating ''abc'')) =
     Some (Some READY)"
    by code_simp
  note T = generating_job_runs_again[OF h1 h2 h3, of env_ok]
  show ?thesis
    by (intro conjI) (rule h1 h2 h3 e conjunct1[OF T] conjunct2[OF T])+
qed

text \<open>
  C4 as it is written fails: the request on a \<open>GENERATING\<close> job returns the generated
  set, not an error, and the job record has changed (status, progress, output, one
  gateway call).
\<close>

theorem generating_job_not_a_conflict:
  "status job_generating = GENERATING \<and>
   map_option (\<lambda>(r, w'). (r, map_option status (uploads w' ''j1''), events w', llm_calls w'))
     (generate_questions_route env_ok ''j1'' (world_with job_generating ''abc'')) =
   Some (Inr \<lparr>resp_file_id = ''j1'', questions = [draft_of ''abc''],
               total_count = 1, resp_status = READY\<rparr>,
         Some READY,
         [StatusSet ''j1'' GENERATING, ProgressSet ''j1'' 0 1,
          ProgressSet ''j1'' 1 1,
          GatewayCall ''abc'' (Some (1, 1, Some ''Processing chunk 1/1'')),
          StatusSet ''j1'' READY],
         1)"
  by code_simp

text \<open>
  C7. A request to generate for a job that is \<open>READY\<close> and whose stored set is on disk
  returns the stored set; the world is the same afterwards: no gateway call, no write.
\<close>

theorem ready_job_returns_stored_set:
  assumes "uploads w f = Some m" and "status m = READY"
    and "generated_questions_path m = Some p" and "p \<noteq> []"
    and "files w p = Some (JsonFile (JObj ms))"
    and "map_of ms ''questions'' = Some (JArr qs)"
    and "list_all is_dict qs"
    and "list_all (\<lambda>q. question_model env q = None) qs"
  shows "generate_questions_route env f w =
     Some (Inr \<lparr>resp_file_id = f, questions = qs, total_count = length qs,
                resp_status = READY\<rparr>, w)"
  using get_generated_questions_stored[OF assms(1,3-8)] assms(1,2)
  by (simp add: generate_questions_route_def get_upload_status_def)

text \<open>The provider of this environment raises on every call; it is not called.\<close>

theorem ready_job_returns_stored_set_witness:
  "uploads world_ready ''j1'' = Some job_ready \<and> status job_ready = READY \<and>
   generated_questions_path job_ready = Some ''./generated_questions/j1.json'' \<and>
   ''./generated_questions/j1.json'' \<noteq> [] \<and>
   files world_ready ''./generated_questions/j1.json'' = Some (JsonFile (JObj stored_set)) \<and>
   map_of stored_set ''questions'' = Some (JArr [draft_of ''abc'']) \<and>
   list_all is_dict [draft_of ''abc''] \<and>
   list_all (\<lambda>q. question_model env_all_fail q = None) [draft_of ''abc''] \<and>
   generate_questions_route env_all_fail ''j1'' world_ready =
     Some (Inr \<lparr>resp_file_id = ''j1'', questions = [draft_of ''abc''],
                 total_count = length [draft_of ''abc''],
                 resp_status = READY\<rparr>, world_ready)"
proof -
  have h1: "uploads world_ready ''j1'' = Some job_ready" by (simp add: world_ready_def)
  have h2: "status job_ready = READY" by (simp add: job_ready_def)
  have h3: "generated_questions_path job_ready = Some ''./generated_questions/j1.json''"
    by (simp add: job_ready_def)
  have h4: "''./generated_questions/j1.json'' \<noteq> []" by simp
  have h5: "files world_ready ''./generated_questions/j1.json'' = Some (JsonFile (JObj stored_set))"
    by (simp add: world_ready_def)
  have h6: "map_of stored_set ''questions'' = Some (JArr [draft_of ''abc''])"
    by (simp add: stored_set_def)
  have h7: "list_all is_dict [draft_of ''abc'']"
    by (simp add: draft_of_def)
  have h8: "list_all (\<lambda>q. question_model env_all_fail q = None) [draft_of ''abc'']"
    by (simp add: env_all_fail_def test_env_def)
  show ?thesis
    using ready_job_returns_stored_set[OF h1 h2 h3 h4 h5 h6 h7 h8] h1 h2 h3 h5 h6 h7 h8
    by simp
qed

text \<open>
  C9. A status update with no error argument changes the status field only, and a
  generation run that returns leaves the error field of the job as it was: a job that
  was \<open>FAILED\<close> ends \<open>READY\<close> with its old error message.
\<close>

theorem stale_error_kept:
  assumes "uploads w f = Some m"
    and "generate_questions_from_file env f w = Some (Inr r, w')"
  shows "(\<forall>st err. \<not> truthy err \<longrightarrow>
            update_status f st err w =
              Inr (w\<lparr>uploads := (uploads w)(f \<mapsto> m\<lparr>status := st\<rparr>),
                     events := events w @ [StatusSet f st]\<rparr>)) \<and>
         map_option error (uploads w' f) = Some (error m) \<and>
         map_option status (uploads w' f) = Some READY"
proof -
  have ex: "uploads w f \<noteq> None" using assms(1) by simp
  have "errs w' f = errs w f" "map_option status (uploads w' f) = Some READY"
    using generate_run_shape[OF ex assms(2)] by simp_all
  then show ?thesis using assms(1) by (simp add: errs_def update_status_def)
qed

theorem stale_error_kept_witness:
  "uploads (world_with job_failed ''abc'') ''j1'' = Some job_failed \<and>
   error job_failed =
     Some ''Question generation failed: No questions were generated from the text'' \<and>
   generate_questions_from_file env_ok ''j1'' (world_with job_failed ''abc'') =
     Some (Inr \<lparr>resp_file_id = ''j1'', questions = [draft_of ''abc''], total_count = 1,
                 resp_status = READY\<rparr>,
           snd (the (generate_questions_from_file env_ok ''j1'' (world_with job_failed ''abc'')))) \<and>
   update_status ''j1'' GENERATING None (world_with job_failed ''abc'') =
     Inr ((world_with job_failed ''abc'')
            \<lparr>uploads := (uploads (world_with job_failed ''abc''))
                 (''j1'' \<mapsto> job_failed\<lparr>status := GENERATING\<rparr>),
              events := events (world_with job_failed ''abc'') @ [StatusSet ''j1'' GENERATING]\<rparr>) \<and>
   map_option error
     (uploads (snd (the (generate_questions_from_file env_ok ''j1'' (world_with job_failed ''abc''))))
        ''j1'') =
     Some (Some ''Question generation failed: No questions were generated from the text'') \<and>
   map_option status
     (uploads (snd (the (generate_questions_from_file env_ok ''j1'' (world_with job_failed ''abc''))))
        ''j1'') = Some READY"
proof -
  let ?w = "world_with job_failed ''abc''"
  let ?r = "\<lparr>resp_file_id = ''j1'', questions = [draft_of ''abc''], total_count = 1,
                 resp_status = READY\<rparr>"
  have h1: "uploads ?w ''j1'' = Some job_failed" by (simp add: world_with_def)
  have er: "error job_failed =
     Some ''Question generation failed: No questions were generated from the text''"
    by (simp add: job_failed_def)
  have v: "map_option fst (generate_questions_from_file env_ok ''j1'' ?w) = Some (Inr ?r)"
    by code_simp
  then obtain w' where g: "generate_questions_from_file env_ok ''j1'' ?w = Some (Inr ?r, w')"
    by (cases "generate_questions_from_file env_ok ''j1'' ?w") auto
  then have h2: "generate_questions_from_file env_ok ''j1'' ?w =
      Some (Inr ?r, snd (the (generate_questions_from_file env_ok ''j1'' ?w)))"
    by simp
  note T = stale_error_kept[OF h1 h2]
  have nt: "\<not> truthy None" by (simp add: truthy_def)
  have u: "update_status ''j1'' GENERATING None ?w =
     Inr (?w\<lparr>uploads := (uploads ?w)(''j1'' \<mapsto> job_failed\<lparr>status := GENERATING\<rparr>),
              events := events ?w @ [StatusSet ''j1'' GENERATING]\<rparr>)"
    using conjunct1[OF T] nt by blast
  have e: "map_option error (uploads (snd (the (generate_questions_from_file env_ok ''j1'' ?w))) ''j1'') =
     Some (Some ''Question generation failed: No questions were generated from the text'')"
    using conjunct1[OF conjunct2[OF T]] er by simp
  show ?thesis
    by (intro conjI) (rule h1 er h2 u e conjunct2[OF conjunct2[OF T]])+
qed

end
